theory Spec2Isabelle
  imports Complex_Main "HOL-Library.Sublist" "HOL-Library.Log_Nat"
begin

section \<open>Python values\<close>

text \<open>
  The draft record is the result of \<^verbatim>\<open>json.loads\<close>, so its fields hold arbitrary JSON
  values. They are modelled by \<open>pyval\<close>. Exceptions are values of \<open>py_error\<close>; a function
  that can raise returns \<open>py_error + 'a\<close>, with \<open>Inl\<close> for the exception.

  Text is ASCII: a \<open>string\<close> is a list of 8-bit characters, the case mappings act on the
  letters a-z and A-Z and leave every other character alone, and the character classes
  are the ASCII parts of Python's Unicode classes.

  A finite double is modelled by the rational number it denotes (so \<open>-0.0\<close> and \<open>0.0\<close>
  are one value, as they are for \<^verbatim>\<open>==\<close>). Every conversion rounds to the nearest double,
  as IEEE 754 binary64 does: \<^verbatim>\<open>float("2.675")\<close> is the double just below 2.675.
  Infinities and NaN are separate values. A float of a JSON file is a double.
\<close>

datatype py_error =
  AttributeError | TypeError | ValueError | OverflowError | KeyError | IndexError
  | ValidationError

datatype pyfloat = Fin rat | PInf | NInf | NaN

datatype pyval =
  PNone
  | PBool bool
  | PInt int
  | PFloat pyfloat
  | PStr string
  | PList "pyval list"
  | PDict "(string \<times> pyval) list"

type_synonym jobj = "string \<rightharpoonup> pyval"

text \<open>\<^verbatim>\<open>d.get(k)\<close>: the value, or \<^verbatim>\<open>None\<close> when the key is absent.\<close>

definition dict_get :: "jobj \<Rightarrow> string \<Rightarrow> pyval" where
  "dict_get d k = (case d k of None \<Rightarrow> PNone | Some v \<Rightarrow> v)"

text \<open>Truthiness, as \<^verbatim>\<open>if val:\<close> and \<^verbatim>\<open>not val\<close> test it.\<close>

fun py_truthy :: "pyval \<Rightarrow> bool" where
  "py_truthy PNone = False"
| "py_truthy (PBool b) = b"
| "py_truthy (PInt i) = (i \<noteq> 0)"
| "py_truthy (PFloat f) = (f \<noteq> Fin 0)"
| "py_truthy (PStr s) = (s \<noteq> [])"
| "py_truthy (PList xs) = (xs \<noteq> [])"
| "py_truthy (PDict kvs) = (kvs \<noteq> [])"

definition bind_err :: "py_error + 'a \<Rightarrow> ('a \<Rightarrow> py_error + 'b) \<Rightarrow> py_error + 'b" where
  "bind_err m f = (case m of Inl e \<Rightarrow> Inl e | Inr x \<Rightarrow> f x)"

subsection \<open>Characters and strings\<close>

definition is_ascii_upper :: "char \<Rightarrow> bool" where
  "is_ascii_upper c = (let n = (of_char c :: nat) in 65 \<le> n \<and> n \<le> 90)"

definition is_ascii_lower :: "char \<Rightarrow> bool" where
  "is_ascii_lower c = (let n = (of_char c :: nat) in 97 \<le> n \<and> n \<le> 122)"

definition is_digit :: "char \<Rightarrow> bool" where
  "is_digit c = (let n = (of_char c :: nat) in 48 \<le> n \<and> n \<le> 57)"

text \<open>\<^verbatim>\<open>str.isspace\<close> on ASCII: tab to carriage return, the four separators 0x1C-0x1F, space.
  \<^verbatim>\<open>str.strip()\<close> and the regular expression class \<^verbatim>\<open>\s\<close> both use it.\<close>

definition py_isspace :: "char \<Rightarrow> bool" where
  "py_isspace c =
     (let n = (of_char c :: nat) in (9 \<le> n \<and> n \<le> 13) \<or> (28 \<le> n \<and> n \<le> 31) \<or> n = 32)"

text \<open>A word character of \<^verbatim>\<open>\b\<close>: a letter, a digit or the underscore.\<close>

definition is_word :: "char \<Rightarrow> bool" where
  "is_word c = (is_ascii_upper c \<or> is_ascii_lower c \<or> is_digit c \<or> c = CHR ''_'')"

definition py_upper_char :: "char \<Rightarrow> char" where
  "py_upper_char c = (if is_ascii_lower c then char_of ((of_char c :: nat) - 32) else c)"

definition py_lower_char :: "char \<Rightarrow> char" where
  "py_lower_char c = (if is_ascii_upper c then char_of ((of_char c :: nat) + 32) else c)"

definition py_upper :: "string \<Rightarrow> string" where
  "py_upper s = map py_upper_char s"

definition py_lower :: "string \<Rightarrow> string" where
  "py_lower s = map py_lower_char s"

definition py_strip :: "string \<Rightarrow> string" where
  "py_strip s = rev (dropWhile py_isspace (rev (dropWhile py_isspace s)))"

section \<open>extract.py: the normalizers\<close>

subsection \<open>normalize_incoterm\<close>

definition valid_incoterms :: "string list" where
  "valid_incoterms =
     [''FOB'', ''CIF'', ''CFR'', ''EXW'', ''DDP'', ''DAP'', ''FCA'', ''CPT'', ''CIP'', ''DPU'']"

text \<open>\<^verbatim>\<open>val.strip()\<close> on a value that is not a string raises AttributeError.\<close>

definition normalize_incoterm :: "pyval \<Rightarrow> py_error + string" where
  "normalize_incoterm val =
     (if \<not> py_truthy val then Inr ''FOB''
      else case val of
        PStr s \<Rightarrow>
          (let val_upper = py_upper (py_strip s)
           in if val_upper \<in> set valid_incoterms then Inr val_upper else Inr ''FOB'')
      | _ \<Rightarrow> Inl AttributeError)"

subsection \<open>determine_product_line\<close>

text \<open>\<^verbatim>\<open>code and code.startswith("IN")\<close>: a falsy code short-circuits; a truthy value
  that is not a string has no \<^verbatim>\<open>startswith\<close>.\<close>

definition starts_with_IN :: "pyval \<Rightarrow> py_error + bool" where
  "starts_with_IN code =
     (if \<not> py_truthy code then Inr False
      else case code of PStr s \<Rightarrow> Inr (prefix ''IN'' s) | _ \<Rightarrow> Inl AttributeError)"

definition determine_product_line :: "pyval \<Rightarrow> pyval \<Rightarrow> py_error + string option" where
  "determine_product_line origin_code dest_code =
     bind_err (starts_with_IN dest_code) (\<lambda>d.
       if d then Inr (Some ''pl_sea_import_lcl'')
       else bind_err (starts_with_IN origin_code) (\<lambda>ob.
         if ob then Inr (Some ''pl_sea_export_lcl'') else Inr None))"

text \<open>An optional string as a Python value.\<close>

fun opt_str :: "string option \<Rightarrow> pyval" where
  "opt_str None = PNone"
| "opt_str (Some s) = PStr s"

text \<open>"The code is present and starts with IN", for an optional code.\<close>

definition present_IN :: "string option \<Rightarrow> bool" where
  "present_IN c = (case c of None \<Rightarrow> False | Some s \<Rightarrow> prefix ''IN'' s)"

subsection \<open>check_dangerous_goods\<close>

text \<open>
  The patterns of the classifier use four constructs only: a literal character, the word
  boundary \<^verbatim>\<open>\b\<close>, \<^verbatim>\<open>\s*\<close> and \<^verbatim>\<open>\d\<close>. A pattern is a list of them. \<open>re_match_here\<close>
  says whether the pattern matches at the current position, where \<open>prev\<close> is the
  character before it (\<open>None\<close> at the start of the text); \<open>re_search\<close> tries every
  position, as \<^verbatim>\<open>re.search\<close> does.
\<close>

datatype re_item = Lit char | WordB | SpaceStar | Digit

definition at_boundary :: "char option \<Rightarrow> string \<Rightarrow> bool" where
  "at_boundary prev s =
     ((case prev of None \<Rightarrow> False | Some c \<Rightarrow> is_word c)
        \<noteq> (case s of [] \<Rightarrow> False | c # _ \<Rightarrow> is_word c))"

fun re_match_here :: "re_item list \<Rightarrow> char option \<Rightarrow> string \<Rightarrow> bool" where
  "re_match_here [] prev s = True"
| "re_match_here (Lit c # r) prev [] = False"
| "re_match_here (Lit c # r) prev (x # xs) = (x = c \<and> re_match_here r (Some x) xs)"
| "re_match_here (WordB # r) prev s = (at_boundary prev s \<and> re_match_here r prev s)"
| "re_match_here (SpaceStar # r) prev [] = re_match_here r prev []"
| "re_match_here (SpaceStar # r) prev (x # xs) =
     (re_match_here r prev (x # xs)
      \<or> (py_isspace x \<and> re_match_here (SpaceStar # r) (Some x) xs))"
| "re_match_here (Digit # r) prev [] = False"
| "re_match_here (Digit # r) prev (x # xs) = (is_digit x \<and> re_match_here r (Some x) xs)"

fun re_search_from :: "re_item list \<Rightarrow> char option \<Rightarrow> string \<Rightarrow> bool" where
  "re_search_from pat prev [] = re_match_here pat prev []"
| "re_search_from pat prev (x # xs) =
     (re_match_here pat prev (x # xs) \<or> re_search_from pat (Some x) xs)"

definition re_search :: "re_item list \<Rightarrow> string \<Rightarrow> bool" where
  "re_search pat s = re_search_from pat None s"

definition lit :: "string \<Rightarrow> re_item list" where
  "lit w = map Lit w"

definition negatives :: "re_item list list" where
  "negatives = [lit ''non-hazardous'', lit ''non-dg'', lit ''not dangerous'', lit ''non hazardous'']"

definition positives_keywords :: "re_item list list" where
  "positives_keywords =
     [WordB # lit ''dg'' @ [WordB], lit ''dangerous'', lit ''hazardous'',
      WordB # lit ''imo'' @ [WordB], WordB # lit ''imdg'' @ [WordB]]"

definition class_pattern :: "re_item list" where
  "class_pattern = WordB # lit ''class'' @ [SpaceStar, Digit]"

text \<open>The second argument, the draft's own boolean, is never read.\<close>

definition check_dangerous_goods :: "string \<Rightarrow> pyval \<Rightarrow> bool" where
  "check_dangerous_goods email_text extracted_bool =
     (let text = py_lower email_text
      in if list_ex (\<lambda>pattern. re_search pattern text) negatives then False
         else if list_ex (\<lambda>pattern. re_search pattern text) positives_keywords then True
         else if re_search class_pattern text then True
         else False)"

text \<open>
  What the patterns mean, stated on the text itself. \<open>sublist w t\<close> says that \<open>w\<close> occurs
  in \<open>t\<close>. \<open>word_occurs w t\<close> says that \<open>w\<close> occurs as a whole word: no word character
  stands right before or right after the occurrence. \<open>class_digit_occurs t\<close> says that
  \<open>class\<close> occurs at a word start, followed by any number of whitespace characters and
  a digit.
\<close>

definition word_occurs :: "string \<Rightarrow> string \<Rightarrow> bool" where
  "word_occurs w t =
     (\<exists>u v. t = u @ w @ v \<and> (u = [] \<or> \<not> is_word (last u)) \<and> (v = [] \<or> \<not> is_word (hd v)))"

definition class_digit_occurs :: "string \<Rightarrow> bool" where
  "class_digit_occurs t =
     (\<exists>u ws d v. t = u @ ''class'' @ ws @ d # v \<and> (u = [] \<or> \<not> is_word (last u))
        \<and> list_all py_isspace ws \<and> is_digit d)"

definition negative_occurs :: "string \<Rightarrow> bool" where
  "negative_occurs t =
     (sublist ''non-hazardous'' t \<or> sublist ''non-dg'' t \<or> sublist ''not dangerous'' t
      \<or> sublist ''non hazardous'' t)"

definition positive_occurs :: "string \<Rightarrow> bool" where
  "positive_occurs t =
     (word_occurs ''dg'' t \<or> sublist ''dangerous'' t \<or> sublist ''hazardous'' t
      \<or> word_occurs ''imo'' t \<or> word_occurs ''imdg'' t \<or> class_digit_occurs t)"

text \<open>The character before the position reached after reading \<open>u\<close>.\<close>

definition prev_of :: "char option \<Rightarrow> string \<Rightarrow> char option" where
  "prev_of p u = (if u = [] then p else Some (last u))"

subsection \<open>round_metric\<close>

text \<open>
  \<^verbatim>\<open>float(val)\<close>. On a string: whitespace is stripped at both ends, an underscore may
  stand between two digits, one sign may lead, and what is left is \<^verbatim>\<open>inf\<close>, \<^verbatim>\<open>infinity\<close>
  or \<^verbatim>\<open>nan\<close> in any case, or a decimal number with an optional exponent; anything else
  raises ValueError. The number is rounded to the nearest double. A number whose nearest
  double would be \<open>2^1024\<close> or more becomes an infinity when it comes from a string, and
  raises OverflowError when it is an integer.
\<close>

definition c_isspace :: "char \<Rightarrow> bool" where
  "c_isspace c = (let n = (of_char c :: nat) in (9 \<le> n \<and> n \<le> 13) \<or> n = 32)"

fun underscores_ok :: "char option \<Rightarrow> string \<Rightarrow> bool" where
  "underscores_ok prev [] = (prev \<noteq> Some CHR ''_'')"
| "underscores_ok prev (c # cs) =
     ((if c = CHR ''_'' then (case prev of None \<Rightarrow> False | Some p \<Rightarrow> is_digit p)
       else if prev = Some CHR ''_'' then is_digit c else True)
      \<and> underscores_ok (Some c) cs)"

definition digits_value :: "string \<Rightarrow> int" where
  "digits_value ds = foldl (\<lambda>a c. 10 * a + ((of_char c :: int) - 48)) 0 ds"

definition all_digits :: "string \<Rightarrow> bool" where
  "all_digits ds = list_all is_digit ds"

text \<open>The exponent part after \<^verbatim>\<open>e\<close>: an optional sign and at least one digit.\<close>

definition parse_exponent :: "string \<Rightarrow> int option" where
  "parse_exponent s =
     (let (neg, ds) = (case s of
            c # r \<Rightarrow> if c = CHR ''-'' then (True, r) else if c = CHR ''+'' then (False, r)
                     else (False, s)
          | [] \<Rightarrow> (False, s))
      in if ds \<noteq> [] \<and> all_digits ds
         then Some (if neg then - digits_value ds else digits_value ds)
         else None)"

text \<open>The mantissa: digits, a point and digits, with digits on at least one side.\<close>

definition parse_mantissa :: "string \<Rightarrow> (int \<times> nat) option" where
  "parse_mantissa s =
     (let ip = takeWhile (\<lambda>c. c \<noteq> CHR ''.'') s; rest = dropWhile (\<lambda>c. c \<noteq> CHR ''.'') s
      in case rest of
           [] \<Rightarrow> if ip \<noteq> [] \<and> all_digits ip then Some (digits_value ip, 0) else None
         | _ # fp \<Rightarrow>
             if all_digits ip \<and> all_digits fp \<and> (ip \<noteq> [] \<or> fp \<noteq> [])
             then Some (digits_value (ip @ fp), length fp) else None)"

definition pow10 :: "int \<Rightarrow> rat" where
  "pow10 e = (if 0 \<le> e then 10 ^ nat e else 1 / 10 ^ nat (- e))"

definition parse_decimal :: "string \<Rightarrow> rat option" where
  "parse_decimal s =
     (let is_e = (\<lambda>c. c = CHR ''e'' \<or> c = CHR ''E'');
          m = takeWhile (\<lambda>c. \<not> is_e c) s; rest = dropWhile (\<lambda>c. \<not> is_e c) s
      in case parse_mantissa m of
           None \<Rightarrow> None
         | Some (digits, scale) \<Rightarrow>
             (case rest of
                [] \<Rightarrow> Some (of_int digits * pow10 (- int scale))
              | _ # ex \<Rightarrow>
                  (case parse_exponent ex of
                     None \<Rightarrow> None
                   | Some e \<Rightarrow> Some (of_int digits * pow10 (e - int scale)))))"

text \<open>
  Doubles. A finite double is a rational \<open>m * 2^e\<close> with a significand \<open>m\<close> of at most
  53 bits and \<open>e\<close> no less than -1074, below \<open>2^1024\<close>. \<open>to_double q\<close> is the double
  nearest to \<open>q\<close>, a tie going to the even significand; it is an infinity when the rounded
  value reaches \<open>2^1024\<close>. \<open>floor_log2 a\<close> is the exponent of the leading bit of a
  positive \<open>a\<close>, and \<open>ulp_exponent a\<close> the exponent of the last bit a double near \<open>a\<close>
  keeps. \<open>is_double f\<close> says that \<open>f\<close> is a value a double can hold: the rounding leaves
  it unchanged.
\<close>

definition round_half_even :: "rat \<Rightarrow> int" where
  "round_half_even q =
     (let f = \<lfloor>q\<rfloor>; d = q - of_int f
      in if d < 1 / 2 then f else if 1 / 2 < d then f + 1 else if even f then f else f + 1)"

definition floor_log2 :: "rat \<Rightarrow> int" where
  "floor_log2 a =
     (let (n, d) = quotient_of a; k = bitlen n - bitlen d
      in if 2 powi k \<le> a then k else k - 1)"

definition ulp_exponent :: "rat \<Rightarrow> int" where
  "ulp_exponent a = max (floor_log2 a - 52) (- 1074)"

definition to_double :: "rat \<Rightarrow> pyfloat" where
  "to_double q =
     (if q = 0 then Fin 0
      else let a = \<bar>q\<bar>;
               e = ulp_exponent a;
               m = round_half_even (a / 2 powi e);
               v = of_int m * 2 powi e
           in if 2 ^ 1024 \<le> v then (if 0 < q then PInf else NInf)
              else Fin (if 0 < q then v else - v))"

definition is_double :: "pyfloat \<Rightarrow> bool" where
  "is_double f = (case f of Fin x \<Rightarrow> to_double x = Fin x | _ \<Rightarrow> True)"

fun negate :: "pyfloat \<Rightarrow> pyfloat" where
  "negate (Fin q) = Fin (- q)"
| "negate PInf = NInf"
| "negate NInf = PInf"
| "negate NaN = NaN"

definition float_of_str :: "string \<Rightarrow> pyfloat option" where
  "float_of_str s =
     (let t = rev (dropWhile c_isspace (rev (dropWhile c_isspace s)))
      in if \<not> underscores_ok None t then None
         else
           (let u = filter (\<lambda>c. c \<noteq> CHR ''_'') t;
                (neg, body) = (case u of
                    c # r \<Rightarrow> if c = CHR ''-'' then (True, r) else if c = CHR ''+'' then (False, r)
                             else (False, u)
                  | [] \<Rightarrow> (False, u));
                word = py_lower body;
                absval =
                  (if word = ''inf'' \<or> word = ''infinity'' then Some PInf
                   else if word = ''nan'' then Some NaN
                   else map_option to_double (parse_decimal body))
            in map_option (\<lambda>f. if neg then negate f else f) absval))"

fun py_float :: "pyval \<Rightarrow> py_error + pyfloat" where
  "py_float PNone = Inl TypeError"
| "py_float (PBool b) = Inr (Fin (if b then 1 else 0))"
| "py_float (PInt i) =
     (case to_double (of_int i) of Fin x \<Rightarrow> Inr (Fin x) | _ \<Rightarrow> Inl OverflowError)"
| "py_float (PFloat f) = Inr f"
| "py_float (PStr s) = (case float_of_str s of None \<Rightarrow> Inl ValueError | Some f \<Rightarrow> Inr f)"
| "py_float (PList xs) = Inl TypeError"
| "py_float (PDict kvs) = Inl TypeError"

text \<open>
  \<^verbatim>\<open>round(f, 2)\<close>: NaN and the infinities round to themselves. The exact value of a
  finite double is rounded to the nearest multiple of 1/100, a tie going to the even
  multiple, and the result is the double nearest to that decimal. (Python raises
  OverflowError if this last step overflows; with two digits it never does on a double,
  which is proved below.)
\<close>

fun py_round2 :: "pyfloat \<Rightarrow> pyfloat" where
  "py_round2 (Fin q) = to_double (of_int (round_half_even (q * 100)) / 100)"
| "py_round2 PInf = PInf"
| "py_round2 NInf = NInf"
| "py_round2 NaN = NaN"

text \<open>The \<^verbatim>\<open>except\<close> clause catches ValueError and TypeError only.\<close>

definition round_metric :: "pyval \<Rightarrow> py_error + pyfloat option" where
  "round_metric val =
     (if val = PNone then Inr None
      else case py_float val of
             Inr f \<Rightarrow> Inr (Some (py_round2 f))
           | Inl e \<Rightarrow> if e = ValueError \<or> e = TypeError then Inr None else Inl e)"

fun is_finite :: "pyfloat \<Rightarrow> bool" where
  "is_finite (Fin q) = True"
| "is_finite f = False"

text \<open>An integer too large for \<^verbatim>\<open>float\<close>: the one input on which \<open>round_metric\<close> raises.\<close>

definition float_overflows :: "pyval \<Rightarrow> bool" where
  "float_overflows v = (case v of PInt i \<Rightarrow> \<not> is_finite (to_double (of_int i)) | _ \<Rightarrow> False)"

text \<open>A value that \<^verbatim>\<open>float\<close> refuses with one of the two exceptions \<open>round_metric\<close>
  catches.\<close>

definition float_rejects :: "pyval \<Rightarrow> bool" where
  "float_rejects v = (py_float v = Inl ValueError \<or> py_float v = Inl TypeError)"

text \<open>A cargo value as a JSON file can hold it: its float, if it is one, is a double.\<close>

definition float_wf :: "pyval \<Rightarrow> bool" where
  "float_wf v = (case v of PFloat f \<Rightarrow> is_double f | _ \<Rightarrow> True)"

section \<open>schemas.py and process_email\<close>

text \<open>
  \<open>ShipmentDetails\<close> is the pydantic model of schemas.py. Its \<open>id\<close> field is a required
  string (\<open>id_field\<close> here, since \<open>id\<close> is the identity function of HOL); the other
  fields are optional. Building the model validates the field types: a string field takes
  a string (or \<^verbatim>\<open>None\<close> when optional) and refuses every other value with a
  ValidationError.
\<close>

record ShipmentDetails =
  id_field :: string
  product_line :: "string option"
  origin_port_code :: "string option"
  origin_port_name :: "string option"
  destination_port_code :: "string option"
  destination_port_name :: "string option"
  incoterm :: "string option"
  cargo_weight_kg :: "pyfloat option"
  cargo_cbm :: "pyfloat option"
  is_dangerous :: "bool option"

fun validate_str :: "pyval \<Rightarrow> py_error + string" where
  "validate_str (PStr s) = Inr s"
| "validate_str v = Inl ValidationError"

fun validate_opt_str :: "pyval \<Rightarrow> py_error + string option" where
  "validate_opt_str PNone = Inr None"
| "validate_opt_str (PStr s) = Inr (Some s)"
| "validate_opt_str v = Inl ValidationError"

text \<open>
  Lines 190-198: a truthy code is upper-cased (AttributeError when it is not a string) and
  replaced by \<^verbatim>\<open>None\<close> when the result is not a key of the port map; a falsy code is
  left as it is.
\<close>

definition normalize_code :: "(string \<rightharpoonup> string) \<Rightarrow> pyval \<Rightarrow> py_error + pyval" where
  "normalize_code port_map code =
     (if py_truthy code then
        (case code of
           PStr s \<Rightarrow> (let c = py_upper s in if port_map c = None then Inr PNone else Inr (PStr c))
         | _ \<Rightarrow> Inl AttributeError)
      else Inr code)"

text \<open>Lines 201-202: \<^verbatim>\<open>port_map.get(code) if code else None\<close>. A truthy normalized code is
  a string, so the last case is never reached.\<close>

definition port_name :: "(string \<rightharpoonup> string) \<Rightarrow> pyval \<Rightarrow> string option" where
  "port_name port_map code =
     (if py_truthy code then (case code of PStr s \<Rightarrow> port_map s | _ \<Rightarrow> None) else None)"

text \<open>
  \<open>process_email\<close> after the call to the language model: \<open>data\<close> is the parsed draft,
  a JSON object (the empty dictionary when that call or the parse failed), \<open>email_id\<close> is
  \<^verbatim>\<open>email.get('id')\<close>, and the text handed to the classifier is subject, a space, body.
  The steps are those of lines 182-234, in order, so the first exception raised is the one
  returned. The caller, \<^verbatim>\<open>main\<close>, wraps the call in \<^verbatim>\<open>try ... except Exception\<close> and
  writes a record of defaults when it raises.
\<close>

definition process_email ::
  "pyval \<Rightarrow> string \<Rightarrow> string \<Rightarrow> jobj \<Rightarrow> (string \<rightharpoonup> string) \<Rightarrow> py_error + ShipmentDetails" where
  "process_email email_id subject body data port_map =
     (let full_text = subject @ '' '' @ body
      in bind_err (normalize_code port_map (dict_get data ''origin_port_code'')) (\<lambda>origin_code.
         bind_err (normalize_code port_map (dict_get data ''destination_port_code'')) (\<lambda>dest_code.
         let origin_name = port_name port_map origin_code;
             dest_name = port_name port_map dest_code
         in bind_err (determine_product_line origin_code dest_code) (\<lambda>derived.
         let prod_line =
               (if derived = None \<and> py_truthy (dict_get data ''product_line'')
                then dict_get data ''product_line'' else opt_str derived)
         in bind_err (normalize_incoterm (dict_get data ''incoterm'')) (\<lambda>inco.
         let is_dg = check_dangerous_goods full_text (dict_get data ''is_dangerous'')
         in bind_err (round_metric (dict_get data ''cargo_weight_kg'')) (\<lambda>weight.
         bind_err (round_metric (dict_get data ''cargo_cbm'')) (\<lambda>cbm.
         bind_err (validate_str email_id) (\<lambda>v_id.
         bind_err (validate_opt_str prod_line) (\<lambda>v_pl.
         bind_err (validate_opt_str origin_code) (\<lambda>v_oc.
         bind_err (validate_opt_str dest_code) (\<lambda>v_dc.
           Inr \<lparr> id_field = v_id, product_line = v_pl,
                 origin_port_code = v_oc, origin_port_name = origin_name,
                 destination_port_code = v_dc, destination_port_name = dest_name,
                 incoterm = Some inco, cargo_weight_kg = weight, cargo_cbm = cbm,
                 is_dangerous = Some is_dg \<rparr>)))))))))))"

text \<open>Conditions on a draft value, as the properties below use them.\<close>

definition none_or_str :: "pyval \<Rightarrow> bool" where
  "none_or_str v = (case v of PNone \<Rightarrow> True | PStr s \<Rightarrow> True | _ \<Rightarrow> False)"

definition falsy_or_str :: "pyval \<Rightarrow> bool" where
  "falsy_or_str v = (\<not> py_truthy v \<or> (case v of PStr s \<Rightarrow> True | _ \<Rightarrow> False))"

definition is_str :: "pyval \<Rightarrow> bool" where
  "is_str v = (case v of PStr s \<Rightarrow> True | _ \<Rightarrow> False)"

text \<open>The reference map and the draft of the spec's end-to-end scenario.\<close>

definition example_reference :: "string \<rightharpoonup> string" where
  "example_reference = map_of [(''INMAA'', ''Chennai ICD''), (''HKHKG'', ''Hong Kong'')]"

definition example_draft :: jobj where
  "example_draft = map_of
     [(''origin_port_code'', PStr ''hkhkg''), (''destination_port_code'', PStr ''inmaa''),
      (''incoterm'', PStr ''fob ''), (''cargo_weight_kg'', PStr ''500''),
      (''cargo_cbm'', PNone), (''is_dangerous'', PBool True)]"

text \<open>A draft with an unknown origin code, a known destination code in lower case, an
  incoterm that is none of the ten and a cargo weight that is no number.\<close>

definition malformed_draft :: jobj where
  "malformed_draft = map_of
     [(''origin_port_code'', PStr ''zzzzz''), (''destination_port_code'', PStr ''inmaa''),
      (''incoterm'', PStr ''free on board''), (''cargo_weight_kg'', PStr ''12 kg''),
      (''cargo_cbm'', PNone), (''is_dangerous'', PBool True)]"

text \<open>A truthy value that is not a string: what \<^verbatim>\<open>.upper()\<close> and \<^verbatim>\<open>.strip()\<close> fail on.\<close>

definition truthy_non_str :: "pyval \<Rightarrow> bool" where
  "truthy_non_str v = (py_truthy v \<and> \<not> is_str v)"

text \<open>
  The port rule in the spec's words, for one side of the record: a null draft code, and a
  non-empty one whose upper-cased form is not a key of the map, leave code and name null;
  a non-empty one that is a key gives the upper-cased code and its name. Nothing is said
  here of the empty string.
\<close>

definition resolved :: "(string \<rightharpoonup> string) \<Rightarrow> pyval \<Rightarrow> string option \<Rightarrow> string option \<Rightarrow> bool" where
  "resolved port_map draft_code code name =
     (case draft_code of
        PNone \<Rightarrow> code = None \<and> name = None
      | PStr c \<Rightarrow>
          if c = [] then True
          else if port_map (py_upper c) = None then code = None \<and> name = None
          else code = Some (py_upper c) \<and> name = port_map (py_upper c)
      | _ \<Rightarrow> True)"

text \<open>The incoterm rule in the spec's words: the trimmed, upper-cased text when that is one
  of the ten incoterms, FOB for anything else.\<close>

definition incoterm_of :: "pyval \<Rightarrow> string" where
  "incoterm_of v =
     (case v of
        PStr s \<Rightarrow> if py_upper (py_strip s) \<in> set valid_incoterms then py_upper (py_strip s)
                  else ''FOB''
      | _ \<Rightarrow> ''FOB'')"

section \<open>extract.py: load_port_reference\<close>

text \<open>
  The reference file is a list of entries. An entry is the pair of
  \<^verbatim>\<open>entry.get('code')\<close> and \<^verbatim>\<open>entry.get('name')\<close>, each an optional string (\<open>None\<close> for
  a missing key or a null). The argument of \<open>load_port_reference\<close> is the parsed file, or
  \<open>None\<close> when the file does not exist.

  \<open>temp_map\<close> is a dictionary in insertion order: a list of keys with their names.
\<close>

type_synonym port_entry = "string option \<times> string option"

fun append_name :: "(string \<times> string list) list \<Rightarrow> string \<Rightarrow> string \<Rightarrow> (string \<times> string list) list" where
  "append_name [] c n = [(c, [n])]"
| "append_name ((k, ns) # rest) c n =
     (if k = c then (k, ns @ [n]) # rest else (k, ns) # append_name rest c n)"

text \<open>The first loop. \<^verbatim>\<open>if not code or not name: continue\<close> skips an entry whose code or
  name is missing, null or empty.\<close>

fun collect :: "port_entry list \<Rightarrow> (string \<times> string list) list \<Rightarrow> (string \<times> string list) list" where
  "collect [] temp_map = temp_map"
| "collect ((code, name) # rest) temp_map =
     (if \<not> py_truthy (opt_str code) \<or> \<not> py_truthy (opt_str name) then collect rest temp_map
      else case (code, name) of
             (Some c, Some n) \<Rightarrow> collect rest (append_name temp_map c n)
           | _ \<Rightarrow> collect rest temp_map)"

definition preferred :: "string \<Rightarrow> bool" where
  "preferred n = (sublist ''Chennai'' n \<and> \<not> sublist ''Bangalore'' n)"

text \<open>The body of the second loop. \<^verbatim>\<open>names[0]\<close> raises IndexError on an empty list.\<close>

definition select_name :: "string \<Rightarrow> string list \<Rightarrow> py_error + string" where
  "select_name c names =
     (case names of
        [] \<Rightarrow> Inl IndexError
      | first # _ \<Rightarrow>
          Inr (if c = ''INMAA''
               then (case find preferred names of Some n \<Rightarrow> n | None \<Rightarrow> first)
               else first))"

fun select_all ::
  "(string \<times> string list) list \<Rightarrow> (string \<rightharpoonup> string) \<Rightarrow> py_error + (string \<rightharpoonup> string)" where
  "select_all [] mapping = Inr mapping"
| "select_all ((c, names) # rest) mapping =
     bind_err (select_name c names) (\<lambda>selected_name.
       select_all rest (mapping(c \<mapsto> selected_name)))"

definition load_port_reference :: "port_entry list option \<Rightarrow> py_error + (string \<rightharpoonup> string)" where
  "load_port_reference file =
     (case file of
        None \<Rightarrow> Inr Map.empty
      | Some data \<Rightarrow> select_all (collect data []) Map.empty)"

text \<open>
  The policy in the spec's words. \<open>names_of c entries\<close> are the names of the entries for
  code \<open>c\<close> that are not skipped, in file order. A code with no such entry is not in the
  map; otherwise its name is the first one, except for INMAA, which takes the first name
  that contains Chennai and not Bangalore when there is one.
\<close>

definition names_of :: "string \<Rightarrow> port_entry list \<Rightarrow> string list" where
  "names_of c entries =
     concat (map (\<lambda>(code, name).
        case (code, name) of
          (Some k, Some n) \<Rightarrow> if k = c \<and> k \<noteq> [] \<and> n \<noteq> [] then [n] else []
        | _ \<Rightarrow> []) entries)"

definition selection_policy :: "port_entry list \<Rightarrow> string \<Rightarrow> string option" where
  "selection_policy entries c =
     (case names_of c entries of
        [] \<Rightarrow> None
      | first # rest \<Rightarrow>
          Some (if c = ''INMAA''
                then (case find preferred (first # rest) of Some n \<Rightarrow> n | None \<Rightarrow> first)
                else first))"

text \<open>The raw reference table of the spec's end-to-end scenario.\<close>

definition example_entries :: "port_entry list" where
  "example_entries =
     [(Some ''INMAA'', Some ''Bangalore ICD''), (Some ''INMAA'', Some ''Chennai ICD''),
      (Some ''HKHKG'', Some ''Hong Kong'')]"

text \<open>The names under a key of \<open>temp_map\<close>; none for a key that is not there.\<close>

definition names_at :: "(string \<times> string list) list \<Rightarrow> string \<Rightarrow> string list" where
  "names_at temp_map k = (case map_of temp_map k of None \<Rightarrow> [] | Some ns \<Rightarrow> ns)"

section \<open>evaluate.py\<close>

subsection \<open>normalize_string and the comparisons\<close>

text \<open>
  \<^verbatim>\<open>str(s)\<close>: a string is itself, \<^verbatim>\<open>None\<close>, the booleans and the integers have the
  forms below. How Python prints a float, a list or a dictionary is not modelled: it is
  the parameter \<open>repr\<close>, and every property holds whatever it is.
\<close>

fun show_nat :: "nat \<Rightarrow> string" where
  "show_nat n =
     (if n < 10 then [char_of (48 + n)] else show_nat (n div 10) @ [char_of (48 + n mod 10)])"

definition show_int :: "int \<Rightarrow> string" where
  "show_int i = (if i < 0 then CHR ''-'' # show_nat (nat (- i)) else show_nat (nat i))"

fun py_str :: "(pyval \<Rightarrow> string) \<Rightarrow> pyval \<Rightarrow> string" where
  "py_str repr PNone = ''None''"
| "py_str repr (PBool b) = (if b then ''True'' else ''False'')"
| "py_str repr (PInt i) = show_int i"
| "py_str repr (PStr s) = s"
| "py_str repr v = repr v"

definition normalize_string :: "(pyval \<Rightarrow> string) \<Rightarrow> pyval \<Rightarrow> string" where
  "normalize_string repr s =
     (if s = PNone then ''null'' else py_upper (py_strip (py_str repr s)))"

text \<open>\<^verbatim>\<open>==\<close> on floats: NaN equals nothing, itself included.\<close>

definition float_eq :: "pyfloat \<Rightarrow> pyfloat \<Rightarrow> bool" where
  "float_eq a b = (a \<noteq> NaN \<and> b \<noteq> NaN \<and> a = b)"

definition compare_floats :: "pyval \<Rightarrow> pyval \<Rightarrow> py_error + bool" where
  "compare_floats val1 val2 =
     (if val1 = PNone \<and> val2 = PNone then Inr True
      else if val1 = PNone \<or> val2 = PNone then Inr False
      else case bind_err (py_float val1) (\<lambda>f1.
                  bind_err (py_float val2) (\<lambda>f2.
                    Inr (float_eq (py_round2 f1) (py_round2 f2)))) of
             Inr b \<Rightarrow> Inr b
           | Inl e \<Rightarrow> if e = ValueError \<or> e = TypeError then Inr False else Inl e)"

definition compare_values :: "(pyval \<Rightarrow> string) \<Rightarrow> string \<Rightarrow> pyval \<Rightarrow> pyval \<Rightarrow> py_error + bool" where
  "compare_values repr field val1 val2 =
     (if field \<in> set [''cargo_weight_kg'', ''cargo_cbm''] then compare_floats val1 val2
      else (let s1 = normalize_string repr val1; s2 = normalize_string repr val2
            in Inr (s1 = s2)))"

subsection \<open>evaluate_accuracy\<close>

text \<open>
  The two files are lists of JSON objects. \<^verbatim>\<open>{item['id']: item for item in ...}\<close> is a
  dictionary in insertion order whose keys are the ids: a list of pairs here. A missing
  \<^verbatim>\<open>id\<close> raises KeyError, a list or a dictionary as id raises TypeError. Keys are compared
  as Python compares them: numbers by value (so \<^verbatim>\<open>1\<close>, \<^verbatim>\<open>1.0\<close> and \<^verbatim>\<open>True\<close> are one key),
  anything else by equality. The NaN of \<^verbatim>\<open>json.load\<close> is one object, which a dictionary
  finds by identity, so NaN is equal to itself as a key.
\<close>

fun num_value :: "pyval \<Rightarrow> pyfloat option" where
  "num_value (PBool b) = Some (Fin (if b then 1 else 0))"
| "num_value (PInt i) = Some (Fin (of_int i))"
| "num_value (PFloat f) = Some f"
| "num_value v = None"

definition key_eq :: "pyval \<Rightarrow> pyval \<Rightarrow> bool" where
  "key_eq a b =
     (case (num_value a, num_value b) of
        (Some x, Some y) \<Rightarrow> x = y
      | (None, None) \<Rightarrow> a = b
      | _ \<Rightarrow> False)"

fun hashable :: "pyval \<Rightarrow> bool" where
  "hashable (PList xs) = False"
| "hashable (PDict kvs) = False"
| "hashable v = True"

fun dict_put :: "(pyval \<times> 'v) list \<Rightarrow> pyval \<Rightarrow> 'v \<Rightarrow> (pyval \<times> 'v) list" where
  "dict_put [] k v = [(k, v)]"
| "dict_put ((k', v') # rest) k v =
     (if key_eq k' k then (k', v) # rest else (k', v') # dict_put rest k v)"

fun dict_find :: "(pyval \<times> 'v) list \<Rightarrow> pyval \<Rightarrow> 'v option" where
  "dict_find [] k = None"
| "dict_find ((k', v') # rest) k = (if key_eq k' k then Some v' else dict_find rest k)"

fun index_by_id :: "jobj list \<Rightarrow> (pyval \<times> jobj) list \<Rightarrow> py_error + (pyval \<times> jobj) list" where
  "index_by_id [] acc = Inr acc"
| "index_by_id (item # rest) acc =
     (case item ''id'' of
        None \<Rightarrow> Inl KeyError
      | Some k \<Rightarrow> if \<not> hashable k then Inl TypeError else index_by_id rest (dict_put acc k item))"

definition fields_to_evaluate :: "string list" where
  "fields_to_evaluate =
     [''product_line'', ''origin_port_code'', ''origin_port_name'', ''destination_port_code'',
      ''destination_port_name'', ''incoterm'', ''cargo_weight_kg'', ''cargo_cbm'',
      ''is_dangerous'']"

text \<open>The counters of the report; \<open>field_metrics\<close> holds, for each field, the correct
  count and the total.\<close>

record metrics =
  total_fields :: nat
  correct_fields :: nat
  field_metrics :: "(string \<times> nat \<times> nat) list"

definition initial_metrics :: metrics where
  "initial_metrics =
     \<lparr> total_fields = 0, correct_fields = 0,
       field_metrics = map (\<lambda>f. (f, 0, 0)) fields_to_evaluate \<rparr>"

definition count_field :: "string \<Rightarrow> bool \<Rightarrow> metrics \<Rightarrow> metrics" where
  "count_field field is_correct m =
     \<lparr> total_fields = total_fields m + 1,
       correct_fields = (if is_correct then correct_fields m + 1 else correct_fields m),
       field_metrics =
         map (\<lambda>(f, c, t). if f = field then (f, if is_correct then c + 1 else c, t + 1)
                           else (f, c, t)) (field_metrics m) \<rparr>"

text \<open>The inner loop: the fields of one pair of records.\<close>

fun eval_fields ::
  "(pyval \<Rightarrow> string) \<Rightarrow> string list \<Rightarrow> jobj \<Rightarrow> jobj \<Rightarrow> metrics \<Rightarrow> py_error + metrics" where
  "eval_fields repr [] truth pred m = Inr m"
| "eval_fields repr (field # rest) truth pred m =
     bind_err (compare_values repr field (dict_get truth field) (dict_get pred field))
       (\<lambda>is_correct. eval_fields repr rest truth pred (count_field field is_correct m))"

text \<open>The outer loop: a ground-truth id that is not in the output is skipped.\<close>

fun eval_records ::
  "(pyval \<Rightarrow> string) \<Rightarrow> (pyval \<times> jobj) list \<Rightarrow> (pyval \<times> jobj) list \<Rightarrow> metrics
     \<Rightarrow> py_error + metrics" where
  "eval_records repr [] outputs m = Inr m"
| "eval_records repr ((email_id, truth) # rest) outputs m =
     (case dict_find outputs email_id of
        None \<Rightarrow> eval_records repr rest outputs m
      | Some pred \<Rightarrow>
          bind_err (eval_fields repr fields_to_evaluate truth pred m)
            (\<lambda>m'. eval_records repr rest outputs m'))"

text \<open>\<open>evaluate_accuracy\<close> on the contents of the two files; \<open>None\<close> is the early return
  on an empty output. The report is printed from the counters returned here.\<close>

definition evaluate_accuracy ::
  "(pyval \<Rightarrow> string) \<Rightarrow> jobj list \<Rightarrow> jobj list \<Rightarrow> py_error + metrics option" where
  "evaluate_accuracy repr output_items truth_items =
     bind_err (index_by_id output_items []) (\<lambda>outputs.
     bind_err (index_by_id truth_items []) (\<lambda>ground_truth.
       if outputs = [] then Inr None
       else bind_err (eval_records repr ground_truth outputs initial_metrics)
              (\<lambda>m. Inr (Some m))))"

definition overall_acc :: "metrics \<Rightarrow> rat" where
  "overall_acc m =
     (if total_fields m > 0 then of_nat (correct_fields m) / of_nat (total_fields m) * 100
      else 0)"

text \<open>A shipment record as the JSON object that \<^verbatim>\<open>model_dump\<close> and \<^verbatim>\<open>json.dump\<close> write
  and \<^verbatim>\<open>json.load\<close> reads back.\<close>

fun opt_float :: "pyfloat option \<Rightarrow> pyval" where
  "opt_float None = PNone"
| "opt_float (Some f) = PFloat f"

fun opt_bool :: "bool option \<Rightarrow> pyval" where
  "opt_bool None = PNone"
| "opt_bool (Some b) = PBool b"

definition to_json :: "ShipmentDetails \<Rightarrow> jobj" where
  "to_json r = map_of
     [(''id'', PStr (id_field r)),
      (''product_line'', opt_str (product_line r)),
      (''origin_port_code'', opt_str (origin_port_code r)),
      (''origin_port_name'', opt_str (origin_port_name r)),
      (''destination_port_code'', opt_str (destination_port_code r)),
      (''destination_port_name'', opt_str (destination_port_name r)),
      (''incoterm'', opt_str (incoterm r)),
      (''cargo_weight_kg'', opt_float (cargo_weight_kg r)),
      (''cargo_cbm'', opt_float (cargo_cbm r)),
      (''is_dangerous'', opt_bool (is_dangerous r))]"

text \<open>The record of the spec's end-to-end scenario.\<close>

definition example_record :: ShipmentDetails where
  "example_record =
     \<lparr> id_field = ''e1'', product_line = Some ''pl_sea_import_lcl'',
       origin_port_code = Some ''HKHKG'', origin_port_name = Some ''Hong Kong'',
       destination_port_code = Some ''INMAA'', destination_port_name = Some ''Chennai ICD'',
       incoterm = Some ''FOB'', cargo_weight_kg = Some (Fin 500),
       cargo_cbm = None, is_dangerous = Some False \<rparr>"

section \<open>Properties\<close>

subsection \<open>Doubles\<close>

text \<open>The rounding to a double: the bounds of \<open>floor_log2\<close>, the size of the
  significand, exactness on the values a double can hold, and a code equation that skips
  the comparison with \<open>2^1024\<close> where the exponent already excludes an overflow.\<close>

lemma pow2_int_rat: "0 \<le> k \<Longrightarrow> (of_int (2 ^ nat k) :: rat) = 2 powi k"
  by (simp add: power_int_def)

lemma floor_log2_bounds:
  assumes "0 < a"
  shows "2 powi (floor_log2 a) \<le> a" and "a < 2 powi (floor_log2 a + 1)"
proof -
  obtain n d where nd: "quotient_of a = (n, d)" by (cases "quotient_of a")
  then have a: "a = of_int n / of_int d" and d: "0 < d"
    using quotient_of_div quotient_of_denom_pos by blast+
  with assms have n: "0 < n"
    by (simp add: zero_less_divide_iff)
  define bn where "bn = bitlen n"
  define bd where "bd = bitlen d"
  have bn1: "1 \<le> bn" and bd1: "1 \<le> bd"
    using n d by (simp_all add: bn_def bd_def bitlen_alt_def)
  have "2 ^ nat (bn - 1) \<le> n" "n < 2 ^ nat bn" "2 ^ nat (bd - 1) \<le> d" "d < 2 ^ nat bd"
    using bitlen_bounds [OF n] bitlen_bounds [OF d] by (simp_all add: bn_def bd_def)
  note i = this
  have e: "(2::rat) powi (bn - 1) = of_int (2 ^ nat (bn - 1))" "(2::rat) powi bn = of_int (2 ^ nat bn)"
    "(2::rat) powi (bd - 1) = of_int (2 ^ nat (bd - 1))" "(2::rat) powi bd = of_int (2 ^ nat bd)"
    using bn1 bd1 by (simp_all add: power_int_def)
  have b: "(2::rat) powi (bn - 1) \<le> of_int n" "(of_int n :: rat) < 2 powi bn"
    "(2::rat) powi (bd - 1) \<le> of_int d" "(of_int d :: rat) < 2 powi bd"
    unfolding e using i by (simp_all only: of_int_le_iff of_int_less_iff)
  have dpos: "(0::rat) < of_int d" using d by simp
  have p: "(0::rat) < 2 powi k" for k by (simp add: power_int_def)
  have up: "a < 2 powi (bn - bd + 1)"
  proof -
    have "a * (2::rat) powi (bd - 1) \<le> a * of_int d"
      using b(3) assms by (simp add: mult_left_mono)
    also have "\<dots> = of_int n" using a dpos by simp
    also have "\<dots> < 2 powi bn" by (rule b(2))
    also have "\<dots> = 2 powi (bn - bd + 1) * 2 powi (bd - 1)"
      by (simp add: power_int_add [symmetric])
    finally show ?thesis using p [of "bd - 1"] by simp
  qed
  have lo: "2 powi (bn - bd - 1) < a"
  proof -
    have "(2::rat) powi (bn - bd - 1) * of_int d < 2 powi (bn - bd - 1) * 2 powi bd"
      using b(4) p [of "bn - bd - 1"] by (simp add: mult_strict_left_mono)
    also have "\<dots> = 2 powi (bn - 1)"
      by (simp add: power_int_add [symmetric])
    also have "\<dots> \<le> of_int n" by (rule b(1))
    also have "\<dots> = a * of_int d" using a dpos by simp
    finally show ?thesis using dpos by simp
  qed
  have fl: "floor_log2 a = (if 2 powi (bn - bd) \<le> a then bn - bd else bn - bd - 1)"
    by (simp add: floor_log2_def nd bn_def bd_def Let_def)
  show "2 powi (floor_log2 a) \<le> a" using lo by (auto simp: fl)
  show "a < 2 powi (floor_log2 a + 1)" using up by (auto simp: fl)
qed


lemma round_half_even_near: "\<bar>of_int (round_half_even q) - q\<bar> \<le> 1 / 2"
proof -
  define f where "f = \<lfloor>q\<rfloor>"
  define d where "d = q - of_int f"
  have d: "0 \<le> d" "d < 1"
    unfolding d_def f_def by linarith+
  have "(round_half_even q = f \<and> d \<le> 1 / 2) \<or> (round_half_even q = f + 1 \<and> 1 / 2 \<le> d)"
    unfolding round_half_even_def Let_def f_def [symmetric] d_def [symmetric] by auto
  then show ?thesis
  proof
    assume "round_half_even q = f \<and> d \<le> 1 / 2"
    then show ?thesis using d unfolding d_def by (simp add: abs_le_iff)
  next
    assume "round_half_even q = f + 1 \<and> 1 / 2 \<le> d"
    then show ?thesis using d unfolding d_def by (simp add: abs_le_iff)
  qed
qed

lemma round_half_even_of_int: "round_half_even (of_int n) = n"
  by (simp add: round_half_even_def)

lemma round_half_even_le: "q \<le> of_int n \<Longrightarrow> round_half_even q \<le> n"
proof -
  assume "q \<le> of_int n"
  moreover have "(of_int (round_half_even q) :: rat) \<le> q + 1 / 2"
    using round_half_even_near [of q] unfolding abs_le_iff by linarith
  ultimately have "(of_int (round_half_even q) :: rat) < of_int n + 1" by simp
  then have "(of_int (round_half_even q) :: rat) < of_int (n + 1)" by simp
  then have "round_half_even q < n + 1" by (simp only: of_int_less_iff)
  then show ?thesis by simp
qed

lemma round_half_even_nonneg: "0 \<le> q \<Longrightarrow> 0 \<le> round_half_even q"
proof -
  assume "0 \<le> q"
  moreover have "q - 1 / 2 \<le> (of_int (round_half_even q) :: rat)"
    using round_half_even_near [of q] unfolding abs_le_iff by linarith
  ultimately have "(of_int (- 1) :: rat) < of_int (round_half_even q)" by simp
  then have "- 1 < round_half_even q" by (simp only: of_int_less_iff)
  then show ?thesis by simp
qed

lemma pow2_pos: "(0::rat) < 2 powi k"
  by (simp add: power_int_def)

lemma pow2_mono: "j \<le> k \<Longrightarrow> (2::rat) powi j \<le> 2 powi k"
  by (rule power_int_increasing) simp_all

lemma pow2_less_imp: "(2::rat) powi j < 2 powi k \<Longrightarrow> j < k"
  using pow2_mono [of k j] by (cases "j < k") auto

text \<open>The significand of a rounding is at most \<open>2^53\<close>.\<close>

lemma significand_bound:
  assumes "0 < a"
  shows "0 \<le> round_half_even (a / 2 powi ulp_exponent a)"
    and "round_half_even (a / 2 powi ulp_exponent a) \<le> 2 ^ 53"
proof -
  let ?e = "ulp_exponent a"
  have "0 \<le> a / 2 powi ?e" using assms pow2_pos [of ?e] by simp
  then show "0 \<le> round_half_even (a / 2 powi ?e)" by (rule round_half_even_nonneg)
  have "floor_log2 a + 1 \<le> ?e + 53" by (simp add: ulp_exponent_def)
  then have "a < 2 powi (?e + 53)"
    using floor_log2_bounds(2) [OF assms] pow2_mono [of "floor_log2 a + 1" "?e + 53"] by simp
  also have "\<dots> = 2 powi ?e * 2 ^ 53"
    by (simp add: power_int_add)
  finally have "a / 2 powi ?e < 2 ^ 53"
    using pow2_pos [of ?e] by (simp add: field_simps)
  then have "a / 2 powi ?e \<le> of_int (2 ^ 53)" by simp
  then show "round_half_even (a / 2 powi ?e) \<le> 2 ^ 53" by (rule round_half_even_le)
qed

lemma to_double_finite:
  assumes "\<bar>q\<bar> < 2 ^ 1023"
  shows "is_finite (to_double q)"
proof (cases "q = 0")
  case True
  then show ?thesis by (simp add: to_double_def)
next
  case False
  define a where "a = \<bar>q\<bar>"
  have a: "0 < a" using False by (simp add: a_def)
  let ?e = "ulp_exponent a"
  let ?m = "round_half_even (a / 2 powi ?e)"
  have "2 powi floor_log2 a < (2::rat) powi 1023"
    using floor_log2_bounds(1) [OF a] assms by (simp add: a_def)
  then have "floor_log2 a < 1023" by (rule pow2_less_imp)
  then have e: "?e + 53 \<le> 1023" by (simp add: ulp_exponent_def)
  have "of_int ?m * 2 powi ?e \<le> (of_int (2 ^ 53) :: rat) * 2 powi ?e"
    using significand_bound(2) [OF a] pow2_pos [of ?e]
    by (intro mult_right_mono) (simp_all only: of_int_le_iff less_imp_le)
  also have "\<dots> = 2 powi (?e + 53)" by (simp add: power_int_add)
  also have "\<dots> \<le> 2 powi 1023" using e by (rule pow2_mono)
  also have "\<dots> < (2::rat) ^ 1024" by simp
  finally have "\<not> ((2::rat) ^ 1024 \<le> of_int ?m * 2 powi ?e)" by simp
  then show ?thesis
    using False by (simp add: to_double_def Let_def a_def)
qed


lemma to_double_exact:
  assumes a: "0 < a" and rep: "a = of_int n * 2 powi e" and n: "n < 2 ^ 53"
    and e: "- 1074 \<le> e" and lim: "a < 2 ^ 1024"
  shows "to_double a = Fin a" and "to_double (- a) = Fin (- a)"
proof -
  let ?e = "ulp_exponent a"
  have "(of_int n :: rat) < of_int (2 ^ 53)" using n by (simp only: of_int_less_iff)
  then have "a < of_int (2 ^ 53) * 2 powi e"
    unfolding rep using pow2_pos [of e] by (intro mult_strict_right_mono)
  also have "\<dots> = 2 powi (e + 53)" by (simp add: power_int_add)
  finally have "2 powi floor_log2 a < (2::rat) powi (e + 53)"
    using floor_log2_bounds(1) [OF a] by simp
  then have "floor_log2 a < e + 53" by (rule pow2_less_imp)
  with e have le: "?e \<le> e" by (simp add: ulp_exponent_def)
  have "(2::rat) powi e = 2 powi (e - ?e) * 2 powi ?e"
    by (simp add: power_int_add [symmetric])
  also have "(2::rat) powi (e - ?e) = of_int (2 ^ nat (e - ?e))"
    using le by (simp add: power_int_def)
  finally have "a = of_int (n * 2 ^ nat (e - ?e)) * 2 powi ?e"
    unfolding rep by simp
  then have q: "a / 2 powi ?e = of_int (n * 2 ^ nat (e - ?e))"
    using pow2_pos [of ?e] by (simp add: field_simps)
  have v: "of_int (round_half_even (a / 2 powi ?e)) * 2 powi ?e = a"
    unfolding q round_half_even_of_int using q pow2_pos [of ?e] by (simp add: field_simps)
  show "to_double a = Fin a"
    using a lim by (simp add: to_double_def Let_def v)
  show "to_double (- a) = Fin (- a)"
    using a lim by (simp add: to_double_def Let_def v)
qed

lemma is_double_zero: "is_double (Fin 0)"
  by (simp add: is_double_def to_double_def)

lemma is_double_significand:
  assumes m: "0 < m" "m \<le> 2 ^ 53" and e: "- 1074 \<le> e"
    and lim: "(of_int m :: rat) * 2 powi e < 2 ^ 1024"
  shows "is_double (Fin (of_int m * 2 powi e))" and "is_double (Fin (- (of_int m * 2 powi e)))"
proof -
  let ?v = "(of_int m :: rat) * 2 powi e"
  have pos: "0 < ?v" using m(1) pow2_pos [of e] by simp
  have "to_double ?v = Fin ?v \<and> to_double (- ?v) = Fin (- ?v)"
  proof (cases "m < 2 ^ 53")
    case True
    from to_double_exact [OF pos refl True e lim] show ?thesis by simp
  next
    case False
    with m(2) have "m = 2 ^ 53" by simp
    then have r: "?v = of_int (2 ^ 52) * 2 powi (e + 1)"
      by (simp add: power_int_add)
    have "- 1074 \<le> e + 1" using e by simp
    from to_double_exact [OF pos r _ this lim] show ?thesis by simp
  qed
  then show "is_double (Fin ?v)" and "is_double (Fin (- ?v))"
    by (simp_all add: is_double_def)
qed

lemma to_double_is_double: "is_double (to_double q)"
proof (cases "q = 0")
  case True
  then show ?thesis by (simp add: to_double_def is_double_zero)
next
  case False
  define a where "a = \<bar>q\<bar>"
  have a: "0 < a" using False by (simp add: a_def)
  define e where "e = ulp_exponent a"
  define m where "m = round_half_even (a / 2 powi e)"
  have e: "- 1074 \<le> e" by (simp add: e_def ulp_exponent_def)
  have m: "0 \<le> m" "m \<le> 2 ^ 53"
    using significand_bound [OF a] by (simp_all add: m_def e_def)
  have td: "to_double q = (if (2::rat) ^ 1024 \<le> of_int m * 2 powi e then (if 0 < q then PInf else NInf)
      else Fin (if 0 < q then of_int m * 2 powi e else - (of_int m * 2 powi e)))"
    using False by (simp add: to_double_def Let_def a_def e_def m_def)
  show ?thesis
  proof (cases "2 ^ 1024 \<le> (of_int m :: rat) * 2 powi e")
    case True
    then show ?thesis by (simp add: td is_double_def)
  next
    case ov: False
    show ?thesis
    proof (cases "m = 0")
      case True
      then show ?thesis by (simp add: td is_double_zero)
    next
      case False
      with m(1) have "0 < m" by simp
      from is_double_significand [OF this m(2) e] ov show ?thesis
        by (simp add: td)
    qed
  qed
qed

lemma is_double_rep:
  assumes "is_double (Fin x)" and "x \<noteq> 0"
  shows "\<exists>m e. \<bar>x\<bar> = of_int m * 2 powi e \<and> 0 < m \<and> m \<le> 2 ^ 53 \<and> - 1074 \<le> e"
proof -
  define a where "a = \<bar>x\<bar>"
  have a: "0 < a" using assms(2) by (simp add: a_def)
  define e where "e = ulp_exponent a"
  define m where "m = round_half_even (a / 2 powi e)"
  have e: "- 1074 \<le> e" by (simp add: e_def ulp_exponent_def)
  have m: "0 \<le> m" "m \<le> 2 ^ 53"
    using significand_bound [OF a] by (simp_all add: m_def e_def)
  have "to_double x = Fin x" using assms(1) by (simp add: is_double_def)
  then have "a = of_int m * 2 powi e"
    using assms(2) by (auto simp: to_double_def Let_def a_def e_def m_def split: if_splits)
  moreover from this a have "m \<noteq> 0" by auto
  ultimately show ?thesis using m e
    by (intro exI [of _ m] exI [of _ e]) (auto simp: a_def)
qed

lemma is_double_large_int:
  assumes "is_double (Fin x)" and "2 ^ 53 \<le> \<bar>x\<bar>"
  shows "\<exists>k. x = of_int k"
proof -
  from assms(2) have "x \<noteq> 0" by auto
  from is_double_rep [OF assms(1) this] obtain m e
    where r: "\<bar>x\<bar> = of_int m * 2 powi e" "0 < m" "m \<le> 2 ^ 53" "- 1074 \<le> e" by blast
  have "0 \<le> e"
  proof (rule ccontr)
    assume "\<not> 0 \<le> e"
    then have "e \<le> - 1" by simp
    then have "(2::rat) powi e \<le> 2 powi (- 1)" by (rule pow2_mono)
    then have h: "(2::rat) powi e \<le> 1 / 2" by (simp add: power_int_def)
    have "(of_int m :: rat) \<le> of_int (2 ^ 53)" using r(3) by (simp only: of_int_le_iff)
    then have "(of_int m :: rat) * 2 powi e \<le> of_int (2 ^ 53) * (1 / 2)"
      using h pow2_pos [of e] by (intro mult_mono) simp_all
    with assms(2) r(1) show False by simp
  qed
  then have "\<bar>x\<bar> = of_int (m * 2 ^ nat e)"
    using r(1) by (simp add: power_int_def)
  then have "x = of_int (m * 2 ^ nat e) \<or> x = of_int (- (m * 2 ^ nat e))"
    by (cases "0 \<le> x") (simp_all add: abs_if split: if_splits)
  then show ?thesis by blast
qed

lemma py_round2_finite:
  assumes "is_double (Fin x)"
  shows "is_finite (py_round2 (Fin x))"
proof (cases "\<bar>x\<bar> < 2 ^ 53")
  case True
  have "\<bar>of_int (round_half_even (x * 100)) - x * 100\<bar> \<le> 1 / 2"
    by (rule round_half_even_near)
  then have "\<bar>of_int (round_half_even (x * 100)) / 100 - x\<bar> \<le> 1 / 200"
    by (simp add: abs_le_iff field_simps)
  with True have "\<bar>(of_int (round_half_even (x * 100)) :: rat) / 100\<bar> < 2 ^ 53 + 1"
    unfolding abs_le_iff abs_less_iff by linarith
  moreover have "(2::rat) ^ 53 + 1 \<le> 2 ^ 1023" by simp
  ultimately have "\<bar>(of_int (round_half_even (x * 100)) :: rat) / 100\<bar> < 2 ^ 1023"
    by (rule less_le_trans)
  then show ?thesis by (simp only: py_round2.simps to_double_finite)
next
  case False
  then have "2 ^ 53 \<le> \<bar>x\<bar>" by simp
  from is_double_large_int [OF assms this] obtain k where k: "x = of_int k" by blast
  have "x * 100 = of_int (k * 100)" by (simp add: k)
  then have "round_half_even (x * 100) = k * 100"
    by (simp only: round_half_even_of_int)
  then have "py_round2 (Fin x) = to_double x" by (simp add: k)
  with assms show ?thesis by (simp add: is_double_def)
qed


lemma to_double_code [code]:
  "to_double q =
     (if q = 0 then Fin 0
      else let a = \<bar>q\<bar>;
               e = ulp_exponent a;
               m = round_half_even (a / 2 powi e);
               v = of_int m * 2 powi e
           in if e \<le> 970 then Fin (if 0 < q then v else - v)
              else if 2 ^ 1024 \<le> v then (if 0 < q then PInf else NInf)
              else Fin (if 0 < q then v else - v))"
proof (cases "q = 0")
  case True
  then show ?thesis by (simp add: to_double_def)
next
  case False
  define a where "a = \<bar>q\<bar>"
  have a: "0 < a" using False by (simp add: a_def)
  let ?e = "ulp_exponent a"
  let ?m = "round_half_even (a / 2 powi ?e)"
  have "\<not> ((2::rat) ^ 1024 \<le> of_int ?m * 2 powi ?e)" if e: "?e \<le> 970"
  proof -
    have "of_int ?m * 2 powi ?e \<le> (of_int (2 ^ 53) :: rat) * 2 powi ?e"
      using significand_bound(2) [OF a] pow2_pos [of ?e]
      by (intro mult_right_mono) (simp_all only: of_int_le_iff less_imp_le)
    also have "\<dots> = 2 powi (?e + 53)" by (simp add: power_int_add)
    also have "\<dots> \<le> 2 powi 1023" using e by (intro pow2_mono) simp
    also have "\<dots> < (2::rat) ^ 1024" by simp
    finally show ?thesis by simp
  qed
  then show ?thesis
    using False by (simp add: to_double_def Let_def a_def)
qed

lemma to_double_not_NaN: "to_double q \<noteq> NaN"
  by (simp add: to_double_def Let_def)

lemma to_double_minus: "to_double (- q) = negate (to_double q)"
  by (cases "0 < q") (auto simp: to_double_def Let_def)

lemma is_double_negate: "is_double f \<Longrightarrow> is_double (negate f)"
  by (cases f) (simp_all add: is_double_def to_double_minus)

lemma is_double_one: "is_double (Fin 1)"
  by code_simp

lemma round_half_even_ge: "of_int n \<le> q \<Longrightarrow> n \<le> round_half_even q"
proof -
  assume "of_int n \<le> q"
  moreover have "q - 1 / 2 \<le> (of_int (round_half_even q) :: rat)"
    using round_half_even_near [of q] unfolding abs_le_iff by linarith
  ultimately have "(of_int n :: rat) - 1 < of_int (round_half_even q)" by simp
  then have "(of_int (n - 1) :: rat) < of_int (round_half_even q)" by simp
  then have "n - 1 < round_half_even q" by (simp only: of_int_less_iff)
  then show ?thesis by simp
qed

lemma to_double_overflow:
  assumes "2 ^ 1024 \<le> \<bar>q\<bar>"
  shows "\<not> is_finite (to_double q)"
proof -
  define a where "a = \<bar>q\<bar>"
  have big: "(2::rat) powi 1024 \<le> a" using assms by (simp add: a_def)
  have a: "0 < a" using pow2_pos [of 1024] big by (rule less_le_trans)
  then have q: "q \<noteq> 0" by (auto simp: a_def)
  define fl where "fl = floor_log2 a"
  have "(2::rat) powi 1024 < 2 powi (fl + 1)"
    using big floor_log2_bounds(2) [OF a] unfolding fl_def by (rule le_less_trans)
  then have fl: "1024 \<le> fl" using pow2_less_imp [of 1024 "fl + 1"] by simp
  then have e: "ulp_exponent a = fl - 52" by (simp add: ulp_exponent_def fl_def)
  define m where "m = round_half_even (a / 2 powi (fl - 52))"
  have "(2::rat) powi fl = of_int (2 ^ 52) * 2 powi (fl - 52)"
    by (simp add: power_int_diff)
  with floor_log2_bounds(1) [OF a] have "of_int (2 ^ 52) * 2 powi (fl - 52) \<le> a"
    by (simp add: fl_def)
  then have "of_int (2 ^ 52) \<le> a / 2 powi (fl - 52)"
    using pow2_pos [of "fl - 52"] by (simp add: field_simps)
  then have "2 ^ 52 \<le> m" unfolding m_def by (rule round_half_even_ge)
  then have "(of_int (2 ^ 52) :: rat) \<le> of_int m" by (simp only: of_int_le_iff)
  then have "(of_int (2 ^ 52) :: rat) * 2 powi (fl - 52) \<le> of_int m * 2 powi (fl - 52)"
    using pow2_pos [of "fl - 52"] by (intro mult_right_mono) simp_all
  also have "(of_int (2 ^ 52) :: rat) * 2 powi (fl - 52) = 2 powi fl"
    by (simp add: power_int_diff)
  finally have "(2::rat) powi 1024 \<le> of_int m * 2 powi (fl - 52)"
    using pow2_mono [OF fl] by simp
  then have "(2::rat) ^ 1024 \<le> of_int m * 2 powi (fl - 52)" by simp
  then show ?thesis
    using q by (simp add: to_double_def Let_def a_def [symmetric] e m_def)
qed

subsection \<open>The classifier\<close>

text \<open>
  C5. The classifier's result depends on the text only: any two hint values give the
  same boolean.
\<close>

theorem check_dangerous_goods_ignores_hint:
  "check_dangerous_goods text h1 = check_dangerous_goods text h2"
  by (simp add: check_dangerous_goods_def)

subsection \<open>The matcher against the meaning of the patterns\<close>

lemma prev_of_simps [simp]: "prev_of p [] = p" "prev_of p (x # xs) = prev_of (Some x) xs"
  by (simp_all add: prev_of_def)

lemma prev_of_append [simp]: "prev_of p (u @ v) = prev_of (prev_of p u) v"
  by (induction u arbitrary: p) simp_all

lemma match_lit:
  "re_match_here (map Lit w @ r) p s \<longleftrightarrow> (\<exists>v. s = w @ v \<and> re_match_here r (prev_of p w) v)"
proof (induction w arbitrary: p s)
  case Nil
  show ?case by simp
next
  case (Cons c w)
  show ?case
  proof (cases s)
    case Nil
    then show ?thesis by simp
  next
    case (Cons x xs)
    then show ?thesis using Cons.IH [of "Some x" xs] by auto
  qed
qed

lemma search_from_iff:
  "re_search_from pat p s \<longleftrightarrow> (\<exists>u v. s = u @ v \<and> re_match_here pat (prev_of p u) v)"
proof (induction s arbitrary: p)
  case Nil
  show ?case by simp
next
  case (Cons x xs)
  show ?case
  proof
    assume "re_search_from pat p (x # xs)"
    then consider "re_match_here pat p (x # xs)" | "re_search_from pat (Some x) xs" by auto
    then show "\<exists>u v. x # xs = u @ v \<and> re_match_here pat (prev_of p u) v"
    proof cases
      case 1
      then have "x # xs = [] @ (x # xs) \<and> re_match_here pat (prev_of p []) (x # xs)" by simp
      then show ?thesis by blast
    next
      case 2
      then obtain u v where "xs = u @ v" "re_match_here pat (prev_of (Some x) u) v"
        using Cons.IH by blast
      then have "x # xs = (x # u) @ v \<and> re_match_here pat (prev_of p (x # u)) v" by simp
      then show ?thesis by blast
    qed
  next
    assume "\<exists>u v. x # xs = u @ v \<and> re_match_here pat (prev_of p u) v"
    then obtain u v where uv: "x # xs = u @ v" "re_match_here pat (prev_of p u) v" by blast
    show "re_search_from pat p (x # xs)"
    proof (cases u)
      case Nil
      with uv show ?thesis by auto
    next
      case (Cons y ys)
      with uv have "xs = ys @ v" "re_match_here pat (prev_of (Some x) ys) v" by auto
      then have "re_search_from pat (Some x) xs" using Cons.IH by blast
      then show ?thesis by simp
    qed
  qed
qed

lemma match_spacestar:
  "re_match_here (SpaceStar # r) p s \<longleftrightarrow>
     (\<exists>ws v. s = ws @ v \<and> list_all py_isspace ws \<and> re_match_here r (prev_of p ws) v)"
proof (induction s arbitrary: p)
  case Nil
  show ?case by simp
next
  case (Cons x xs)
  show ?case
  proof
    assume "re_match_here (SpaceStar # r) p (x # xs)"
    then consider "re_match_here r p (x # xs)"
      | "py_isspace x" "re_match_here (SpaceStar # r) (Some x) xs" by auto
    then show "\<exists>ws v. x # xs = ws @ v \<and> list_all py_isspace ws \<and> re_match_here r (prev_of p ws) v"
    proof cases
      case 1
      then have "x # xs = [] @ (x # xs) \<and> list_all py_isspace [] \<and> re_match_here r (prev_of p []) (x # xs)"
        by simp
      then show ?thesis by blast
    next
      case 2
      then obtain ws v where "xs = ws @ v" "list_all py_isspace ws" "re_match_here r (prev_of (Some x) ws) v"
        using Cons.IH by blast
      with 2 have "x # xs = (x # ws) @ v \<and> list_all py_isspace (x # ws) \<and> re_match_here r (prev_of p (x # ws)) v"
        by simp
      then show ?thesis by blast
    qed
  next
    assume "\<exists>ws v. x # xs = ws @ v \<and> list_all py_isspace ws \<and> re_match_here r (prev_of p ws) v"
    then obtain ws v where wv: "x # xs = ws @ v" "list_all py_isspace ws" "re_match_here r (prev_of p ws) v"
      by blast
    show "re_match_here (SpaceStar # r) p (x # xs)"
    proof (cases ws)
      case Nil
      with wv show ?thesis by auto
    next
      case (Cons y ys)
      with wv have "xs = ys @ v" "list_all py_isspace ys" "re_match_here r (prev_of (Some x) ys) v" "py_isspace x"
        by auto
      then have "re_match_here (SpaceStar # r) (Some x) xs" using Cons.IH by blast
      with \<open>py_isspace x\<close> show ?thesis by simp
    qed
  qed
qed

lemma search_lit: "re_search (lit w) s \<longleftrightarrow> sublist w s"
proof -
  have "re_search (lit w) s \<longleftrightarrow> (\<exists>u v. s = u @ v \<and> (\<exists>v'. v = w @ v'))"
    unfolding re_search_def lit_def search_from_iff
    using match_lit [of w "[]"] by simp
  also have "\<dots> \<longleftrightarrow> sublist w s"
    by (auto simp: sublist_def)
  finally show ?thesis .
qed


lemma boundary_before_word:
  "is_word c \<Longrightarrow> at_boundary (prev_of None u) (c # s) \<longleftrightarrow> (u = [] \<or> \<not> is_word (last u))"
  by (cases u rule: rev_cases) (simp_all add: at_boundary_def prev_of_def)

lemma boundary_after_word:
  "is_word c \<Longrightarrow> at_boundary (Some c) v \<longleftrightarrow> (v = [] \<or> \<not> is_word (hd v))"
  by (cases v) (simp_all add: at_boundary_def)

lemma search_word:
  assumes "w \<noteq> []" "is_word (hd w)" "is_word (last w)"
  shows "re_search (WordB # lit w @ [WordB]) s \<longleftrightarrow> word_occurs w s"
proof -
  obtain c w' where w: "w = c # w'" using assms(1) by (cases w) auto
  have pw: "prev_of p w = Some (last w)" for p using assms(1) by (simp add: prev_of_def)
  have "re_search (WordB # lit w @ [WordB]) s \<longleftrightarrow>
        (\<exists>u v. s = u @ v \<and> at_boundary (prev_of None u) v
           \<and> (\<exists>v'. v = w @ v' \<and> at_boundary (Some (last w)) v'))"
    unfolding re_search_def lit_def search_from_iff
    by (simp add: match_lit pw)
  also have "\<dots> \<longleftrightarrow> (\<exists>u v'. s = u @ w @ v' \<and> at_boundary (prev_of None u) (w @ v')
           \<and> at_boundary (Some (last w)) v')"
    by blast
  also have "\<dots> \<longleftrightarrow> word_occurs w s"
    unfolding word_occurs_def
    using assms(2,3) by (simp add: w boundary_before_word boundary_after_word del: last.simps)
  finally show ?thesis .
qed

lemma match_digit: "re_match_here [Digit] p s \<longleftrightarrow> (\<exists>d v. s = d # v \<and> is_digit d)"
  by (cases s) simp_all

lemma is_word_c: "is_word CHR ''c''"
  by code_simp

lemma search_class: "re_search class_pattern s \<longleftrightarrow> class_digit_occurs s"
proof -
  have m: "re_match_here (lit ''class'' @ [SpaceStar, Digit]) p v \<longleftrightarrow>
        (\<exists>v'. v = ''class'' @ v' \<and> (\<exists>ws v''. v' = ws @ v'' \<and> list_all py_isspace ws
                 \<and> (\<exists>d x. v'' = d # x \<and> is_digit d)))" for p v
    unfolding lit_def match_lit match_spacestar match_digit ..
  have "re_search class_pattern s \<longleftrightarrow>
        (\<exists>u v. s = u @ v \<and> at_boundary (prev_of None u) v
           \<and> re_match_here (lit ''class'' @ [SpaceStar, Digit]) (prev_of None u) v)"
    unfolding re_search_def class_pattern_def search_from_iff by simp
  also have "\<dots> \<longleftrightarrow> (\<exists>u ws d x. s = u @ ''class'' @ ws @ d # x
           \<and> at_boundary (prev_of None u) (''class'' @ ws @ d # x)
           \<and> list_all py_isspace ws \<and> is_digit d)"
    unfolding m by blast
  also have "\<dots> \<longleftrightarrow> class_digit_occurs s"
    unfolding class_digit_occurs_def
    using boundary_before_word [OF is_word_c] by simp
  finally show ?thesis .
qed

lemma is_word_letters:
  "is_word CHR ''d''" "is_word CHR ''g''" "is_word CHR ''i''" "is_word CHR ''o''"
  by code_simp+

lemma negatives_search:
  "list_ex (\<lambda>pattern. re_search pattern s) negatives \<longleftrightarrow> negative_occurs s"
  by (simp add: negatives_def negative_occurs_def search_lit)

lemma positives_search:
  "list_ex (\<lambda>pattern. re_search pattern s) positives_keywords \<or> re_search class_pattern s
     \<longleftrightarrow> positive_occurs s"
proof -
  have w: "re_search (WordB # lit ''dg'' @ [WordB]) s \<longleftrightarrow> word_occurs ''dg'' s"
    "re_search (WordB # lit ''imo'' @ [WordB]) s \<longleftrightarrow> word_occurs ''imo'' s"
    "re_search (WordB # lit ''imdg'' @ [WordB]) s \<longleftrightarrow> word_occurs ''imdg'' s"
    by (rule search_word; simp add: is_word_letters)+
  show ?thesis
    unfolding positives_keywords_def positive_occurs_def
    by (simp add: w search_lit search_class)
qed

lemma check_dangerous_goods_iff:
  "check_dangerous_goods t h \<longleftrightarrow>
     \<not> negative_occurs (py_lower t) \<and> positive_occurs (py_lower t)"
  unfolding check_dangerous_goods_def Let_def negatives_search
  using positives_search [of "py_lower t"] by auto

text \<open>
  C4. When a negative pattern occurs in the lower-cased text the classifier returns
  false, whatever positive patterns occur as well; and when neither a negative nor a
  positive pattern occurs it returns false.
\<close>

theorem check_dangerous_goods_negatives_win:
  "(negative_occurs (py_lower t) \<longrightarrow> check_dangerous_goods t h = False)
   \<and> (\<not> negative_occurs (py_lower t) \<and> \<not> positive_occurs (py_lower t)
        \<longrightarrow> check_dangerous_goods t h = False)"
  by (simp add: check_dangerous_goods_iff)

theorem check_dangerous_goods_negatives_win_witness:
  "negative_occurs (py_lower ''DG cargo, Class 3 - but NON-HAZARDOUS'')
   \<and> positive_occurs (py_lower ''DG cargo, Class 3 - but NON-HAZARDOUS'')
   \<and> check_dangerous_goods ''DG cargo, Class 3 - but NON-HAZARDOUS'' (PBool True) = False
   \<and> \<not> negative_occurs (py_lower ''Garments, 20 cartons'')
   \<and> \<not> positive_occurs (py_lower ''Garments, 20 cartons'')
   \<and> check_dangerous_goods ''Garments, 20 cartons'' (PBool True) = False"
proof -
  have n1: "negative_occurs (py_lower ''DG cargo, Class 3 - but NON-HAZARDOUS'')"
    by code_simp
  have p1: "positive_occurs (py_lower ''DG cargo, Class 3 - but NON-HAZARDOUS'')"
    unfolding positives_search [symmetric] by code_simp
  have n2: "\<not> negative_occurs (py_lower ''Garments, 20 cartons'')"
    by code_simp
  have p2: "\<not> positive_occurs (py_lower ''Garments, 20 cartons'')"
    unfolding positives_search [symmetric] by code_simp
  from n1 have r1: "check_dangerous_goods ''DG cargo, Class 3 - but NON-HAZARDOUS'' (PBool True) = False"
    using check_dangerous_goods_negatives_win
      [of "''DG cargo, Class 3 - but NON-HAZARDOUS''" "PBool True"] by blast
  from n2 p2 have r2: "check_dangerous_goods ''Garments, 20 cartons'' (PBool True) = False"
    using check_dangerous_goods_negatives_win [of "''Garments, 20 cartons''" "PBool True"]
    by blast
  from n1 p1 r1 n2 p2 r2 show ?thesis by blast
qed

subsection \<open>The product line\<close>

lemma determine_product_line_opt:
  "determine_product_line (opt_str oc) (opt_str dc) =
     Inr (if present_IN dc then Some ''pl_sea_import_lcl''
          else if present_IN oc then Some ''pl_sea_export_lcl'' else None)"
  by (cases oc; cases dc)
     (auto simp: determine_product_line_def starts_with_IN_def bind_err_def present_IN_def)

text \<open>
  C6. On optional codes the deriver never raises and returns import when the destination
  code is present and starts with IN, otherwise export when the origin code is present
  and starts with IN, otherwise nothing; so two Indian codes give import.
\<close>

theorem determine_product_line_rule:
  "determine_product_line (opt_str oc) (opt_str dc) =
     Inr (if present_IN dc then Some ''pl_sea_import_lcl''
          else if present_IN oc then Some ''pl_sea_export_lcl'' else None)
   \<and> (present_IN dc \<and> present_IN oc \<longrightarrow>
        determine_product_line (opt_str oc) (opt_str dc) = Inr (Some ''pl_sea_import_lcl''))"
  by (simp add: determine_product_line_opt)

theorem determine_product_line_rule_witness:
  "present_IN (Some ''INMAA'') \<and> present_IN (Some ''INBOM'')
   \<and> determine_product_line (PStr ''INBOM'') (PStr ''INMAA'') = Inr (Some ''pl_sea_import_lcl'')
   \<and> determine_product_line (PStr ''INMAA'') (PStr ''HKHKG'') = Inr (Some ''pl_sea_export_lcl'')
   \<and> determine_product_line (PStr ''HKHKG'') (PStr ''INMAA'') = Inr (Some ''pl_sea_import_lcl'')
   \<and> determine_product_line PNone PNone = Inr None"
proof -
  have a: "present_IN (Some ''INMAA'')" "present_IN (Some ''INBOM'')"
    "\<not> present_IN (Some ''HKHKG'')" "\<not> present_IN None"
    by (simp_all add: present_IN_def)
  show ?thesis
    using a determine_product_line_rule [of "Some ''INBOM''" "Some ''INMAA''"]
      determine_product_line_rule [of "Some ''INMAA''" "Some ''HKHKG''"]
      determine_product_line_rule [of "Some ''HKHKG''" "Some ''INMAA''"]
      determine_product_line_rule [of None None]
    by simp
qed

subsection \<open>Where the assembler returns\<close>

lemma normalize_code_ok:
  "none_or_str v \<Longrightarrow> \<exists>c. normalize_code pm v = Inr c \<and> none_or_str c"
  by (cases v) (auto simp: normalize_code_def none_or_str_def Let_def)

lemma starts_with_IN_ok: "none_or_str v \<Longrightarrow> \<exists>b. starts_with_IN v = Inr b"
  by (cases v) (auto simp: starts_with_IN_def none_or_str_def)

lemma determine_product_line_ok:
  "none_or_str a \<Longrightarrow> none_or_str b \<Longrightarrow> \<exists>p. determine_product_line a b = Inr p"
  using starts_with_IN_ok [of a] starts_with_IN_ok [of b]
  by (auto simp: determine_product_line_def bind_err_def)

lemma normalize_incoterm_ok:
  "falsy_or_str v \<Longrightarrow> \<exists>t. normalize_incoterm v = Inr t \<and> t \<in> set valid_incoterms"
  by (cases v) (auto simp: normalize_incoterm_def falsy_or_str_def Let_def valid_incoterms_def)

lemma py_float_errors:
  "py_float v = Inl e \<Longrightarrow> e = TypeError \<or> e = ValueError \<or> (e = OverflowError \<and> float_overflows v)"
  by (cases v) (auto simp: float_overflows_def split: if_splits option.splits pyfloat.splits)

lemma round_metric_ok: "\<not> float_overflows v \<Longrightarrow> \<exists>m. round_metric v = Inr m"
  using py_float_errors [of v]
  by (cases "py_float v") (auto simp: round_metric_def)

lemma validate_opt_str_ok: "none_or_str v \<Longrightarrow> \<exists>x. validate_opt_str v = Inr x"
  by (cases v) (auto simp: none_or_str_def)

lemma validate_str_ok: "is_str v \<Longrightarrow> \<exists>x. validate_str v = Inr x"
  by (cases v) (auto simp: is_str_def)

lemma prod_line_ok:
  "falsy_or_str pl \<Longrightarrow>
   none_or_str (if derived = None \<and> py_truthy pl then pl else opt_str derived)"
  by (cases pl; cases derived) (auto simp: falsy_or_str_def none_or_str_def)

lemma process_email_ok:
  assumes "is_str email_id"
    and "none_or_str (dict_get data ''origin_port_code'')"
    and "none_or_str (dict_get data ''destination_port_code'')"
    and "falsy_or_str (dict_get data ''product_line'')"
    and "falsy_or_str (dict_get data ''incoterm'')"
    and "\<not> float_overflows (dict_get data ''cargo_weight_kg'')"
    and "\<not> float_overflows (dict_get data ''cargo_cbm'')"
  shows "\<exists>r. process_email email_id subject body data port_map = Inr r"
proof -
  obtain oc where oc: "normalize_code port_map (dict_get data ''origin_port_code'') = Inr oc"
    "none_or_str oc" using normalize_code_ok [OF assms(2)] by blast
  obtain dc where dc: "normalize_code port_map (dict_get data ''destination_port_code'') = Inr dc"
    "none_or_str dc" using normalize_code_ok [OF assms(3)] by blast
  obtain derived where d: "determine_product_line oc dc = Inr derived"
    using determine_product_line_ok [OF oc(2) dc(2)] by blast
  obtain inco where i: "normalize_incoterm (dict_get data ''incoterm'') = Inr inco"
    using normalize_incoterm_ok [OF assms(5)] by blast
  obtain w where w: "round_metric (dict_get data ''cargo_weight_kg'') = Inr w"
    using round_metric_ok [OF assms(6)] by blast
  obtain c where c: "round_metric (dict_get data ''cargo_cbm'') = Inr c"
    using round_metric_ok [OF assms(7)] by blast
  obtain vid where vid: "validate_str email_id = Inr vid"
    using validate_str_ok [OF assms(1)] by blast
  obtain vpl where vpl: "validate_opt_str
      (if derived = None \<and> py_truthy (dict_get data ''product_line'')
       then dict_get data ''product_line'' else opt_str derived) = Inr vpl"
    using validate_opt_str_ok [OF prod_line_ok [OF assms(4)]] by blast
  obtain voc where voc: "validate_opt_str oc = Inr voc"
    using validate_opt_str_ok [OF oc(2)] by blast
  obtain vdc where vdc: "validate_opt_str dc = Inr vdc"
    using validate_opt_str_ok [OF dc(2)] by blast
  show ?thesis
    unfolding process_email_def Let_def
    by (simp add: bind_err_def oc(1) dc(1) d i w c vid vpl voc vdc)
qed


subsection \<open>What a returned record is made of\<close>

lemma validate_opt_str_Inr: "validate_opt_str v = Inr x \<Longrightarrow> opt_str x = v"
  by (cases v) auto

lemma bind_err_Inr: "bind_err m f = Inr r \<Longrightarrow> \<exists>x. m = Inr x \<and> f x = Inr r"
  by (cases m) (auto simp: bind_err_def)

lemma process_email_Inr:
  assumes "process_email email_id subject body data port_map = Inr r"
  shows "\<exists>oc dc derived inco.
     normalize_code port_map (dict_get data ''origin_port_code'') = Inr oc
     \<and> normalize_code port_map (dict_get data ''destination_port_code'') = Inr dc
     \<and> determine_product_line oc dc = Inr derived
     \<and> normalize_incoterm (dict_get data ''incoterm'') = Inr inco
     \<and> round_metric (dict_get data ''cargo_weight_kg'') = Inr (cargo_weight_kg r)
     \<and> round_metric (dict_get data ''cargo_cbm'') = Inr (cargo_cbm r)
     \<and> validate_str email_id = Inr (id_field r)
     \<and> validate_opt_str (if derived = None \<and> py_truthy (dict_get data ''product_line'')
           then dict_get data ''product_line'' else opt_str derived) = Inr (product_line r)
     \<and> validate_opt_str oc = Inr (origin_port_code r)
     \<and> validate_opt_str dc = Inr (destination_port_code r)
     \<and> origin_port_name r = port_name port_map oc
     \<and> destination_port_name r = port_name port_map dc
     \<and> incoterm r = Some inco
     \<and> is_dangerous r = Some (check_dangerous_goods (subject @ '' '' @ body)
           (dict_get data ''is_dangerous''))"
  using assms unfolding process_email_def Let_def
  by (auto dest!: bind_err_Inr split del: if_split)

subsection \<open>Port codes\<close>

text \<open>
  C2. The claim asks that a draft code whose upper-cased form is not a key of the
  reference map leaves both the code and the name of that side null. The empty string is
  such a code (it is no key of the map), but \<^verbatim>\<open>if origin_code:\<close> skips it, so the record
  keeps the empty code, with no name.
\<close>

theorem process_email_empty_code:
  "example_reference (py_upper '''') = None
   \<and> process_email (PStr ''e1'') ''Rate request'' ''Please quote.''
     (map_of [(''origin_port_code'', PStr '''')]) example_reference
   = Inr \<lparr> id_field = ''e1'', product_line = None,
        origin_port_code = Some '''', origin_port_name = None,
        destination_port_code = None, destination_port_name = None,
        incoterm = Some ''FOB'', cargo_weight_kg = None,
        cargo_cbm = None, is_dangerous = Some False \<rparr>"
  by code_simp

text \<open>For a code that is a non-empty string the record does follow the rule: code and
  name are both null when the upper-cased code is not a key of the map, and the
  upper-cased code with its name otherwise.\<close>

lemma normalize_code_str:
  "c \<noteq> [] \<Longrightarrow> normalize_code pm (PStr c) =
     Inr (if pm (py_upper c) = None then PNone else PStr (py_upper c))"
  by (simp add: normalize_code_def Let_def)

lemma py_upper_Nil: "py_upper c = [] \<longleftrightarrow> c = []"
  by (simp add: py_upper_def)

lemma port_code_resolved:
  assumes "process_email email_id subject body data port_map = Inr r"
    and "dict_get data ''origin_port_code'' = PStr c" and "c \<noteq> []"
  shows "(port_map (py_upper c) = None \<longrightarrow>
            origin_port_code r = None \<and> origin_port_name r = None)
         \<and> (port_map (py_upper c) \<noteq> None \<longrightarrow>
            origin_port_code r = Some (py_upper c)
            \<and> origin_port_name r = port_map (py_upper c))"
  using process_email_Inr [OF assms(1)] assms(2,3)
  by (auto simp: normalize_code_str port_name_def py_upper_Nil)

lemma port_code_resolved_dest:
  assumes "process_email email_id subject body data port_map = Inr r"
    and "dict_get data ''destination_port_code'' = PStr c" and "c \<noteq> []"
  shows "(port_map (py_upper c) = None \<longrightarrow>
            destination_port_code r = None \<and> destination_port_name r = None)
         \<and> (port_map (py_upper c) \<noteq> None \<longrightarrow>
            destination_port_code r = Some (py_upper c)
            \<and> destination_port_name r = port_map (py_upper c))"
  using process_email_Inr [OF assms(1)] assms(2,3)
  by (auto simp: normalize_code_str port_name_def py_upper_Nil)

subsection \<open>Malformed drafts\<close>

text \<open>What the assembler and the normalizers do with values that are not of the expected
  kind: where they raise, and what a returned record holds in their place.\<close>

lemma normalize_incoterm_rule:
  "falsy_or_str v \<Longrightarrow>
   normalize_incoterm v = Inr (incoterm_of v) \<and> incoterm_of v \<in> set valid_incoterms"
  by (cases v)
     (auto simp: normalize_incoterm_def incoterm_of_def falsy_or_str_def Let_def
        valid_incoterms_def py_upper_def py_strip_def)

lemma normalize_incoterm_raises:
  "truthy_non_str v \<Longrightarrow> normalize_incoterm v = Inl AttributeError"
  by (cases v) (auto simp: normalize_incoterm_def truthy_non_str_def is_str_def)

lemma normalize_code_raises:
  "truthy_non_str v \<Longrightarrow> normalize_code pm v = Inl AttributeError"
  by (cases v) (auto simp: normalize_code_def truthy_non_str_def is_str_def)

lemma normalize_code_cases:
  "normalize_code pm v = Inl AttributeError
   \<or> (\<exists>c. normalize_code pm v = Inr c \<and> (\<exists>b. starts_with_IN c = Inr b))"
  by (cases v) (auto simp: normalize_code_def starts_with_IN_def Let_def)

lemma process_email_raises:
  assumes "truthy_non_str (dict_get data ''origin_port_code'')
     \<or> truthy_non_str (dict_get data ''destination_port_code'')
     \<or> truthy_non_str (dict_get data ''incoterm'')"
  shows "process_email email_id subject body data port_map = Inl AttributeError"
proof -
  let ?o = "normalize_code port_map (dict_get data ''origin_port_code'')"
  let ?d = "normalize_code port_map (dict_get data ''destination_port_code'')"
  show ?thesis
  proof (cases "?o = Inl AttributeError \<or> ?d = Inl AttributeError")
    case True
    then show ?thesis
      using normalize_code_cases [of port_map "dict_get data ''origin_port_code''"]
      unfolding process_email_def Let_def by (auto simp: bind_err_def)
  next
    case False
    then obtain oc dc bo bd where c: "?o = Inr oc" "?d = Inr dc"
      "starts_with_IN oc = Inr bo" "starts_with_IN dc = Inr bd"
      using normalize_code_cases [of port_map "dict_get data ''origin_port_code''"]
        normalize_code_cases [of port_map "dict_get data ''destination_port_code''"]
      by auto
    from False assms normalize_code_raises
    have "truthy_non_str (dict_get data ''incoterm'')" by blast
    then have i: "normalize_incoterm (dict_get data ''incoterm'') = Inl AttributeError"
      by (rule normalize_incoterm_raises)
    show ?thesis
      unfolding process_email_def Let_def
      by (simp add: bind_err_def c i determine_product_line_def)
  qed
qed

lemma round_metric_degrades:
  "\<not> float_overflows w \<Longrightarrow>
   \<exists>m. round_metric w = Inr m \<and> (w = PNone \<or> float_rejects w \<longrightarrow> m = None)"
  using py_float_errors [of w]
  by (cases "py_float w") (auto simp: round_metric_def float_rejects_def)

lemma port_code_null:
  "normalize_code pm PNone = Inr PNone" "port_name pm PNone = None"
  by (simp_all add: normalize_code_def port_name_def)

lemma process_email_resolved:
  assumes "process_email email_id subject body data port_map = Inr r"
  shows "resolved port_map (dict_get data ''origin_port_code'')
           (origin_port_code r) (origin_port_name r)"
    and "resolved port_map (dict_get data ''destination_port_code'')
           (destination_port_code r) (destination_port_name r)"
proof -
  show "resolved port_map (dict_get data ''origin_port_code'')
           (origin_port_code r) (origin_port_name r)"
  proof (cases "dict_get data ''origin_port_code''")
    case PNone
    with process_email_Inr [OF assms] show ?thesis
      by (auto simp: resolved_def port_code_null)
  next
    case (PStr c)
    with port_code_resolved [OF assms, of c] show ?thesis
      by (auto simp: resolved_def)
  qed (simp_all add: resolved_def)
  show "resolved port_map (dict_get data ''destination_port_code'')
           (destination_port_code r) (destination_port_name r)"
  proof (cases "dict_get data ''destination_port_code''")
    case PNone
    with process_email_Inr [OF assms] show ?thesis
      by (auto simp: resolved_def port_code_null)
  next
    case (PStr c)
    with port_code_resolved_dest [OF assms, of c] show ?thesis
      by (auto simp: resolved_def)
  qed (simp_all add: resolved_def)
qed


lemma validate_str_Inr: "validate_str v = Inr x \<Longrightarrow> PStr x = v"
  by (cases v) auto

lemma float_overflows_large: "2 ^ 1024 \<le> \<bar>i\<bar> \<Longrightarrow> float_overflows (PInt i)"
proof -
  assume "2 ^ 1024 \<le> \<bar>i\<bar>"
  then have "(of_int (2 ^ 1024) :: rat) \<le> of_int \<bar>i\<bar>" by (simp only: of_int_le_iff)
  then have "(2::rat) ^ 1024 \<le> \<bar>of_int i\<bar>" by simp
  then show ?thesis by (simp add: float_overflows_def to_double_overflow)
qed

lemma round_metric_overflow: "float_overflows z \<Longrightarrow> round_metric z = Inl OverflowError"
  by (cases z) (auto simp: float_overflows_def round_metric_def split: pyfloat.splits)

lemma round_metric_Inr: "round_metric w = Inr m \<Longrightarrow> \<not> float_overflows w"
  using round_metric_overflow [of w] by auto

lemma normalize_incoterm_Inr: "normalize_incoterm v = Inr t \<Longrightarrow> falsy_or_str v"
  by (cases v) (auto simp: normalize_incoterm_def falsy_or_str_def split: if_splits)

lemma normalize_code_validated:
  "normalize_code pm v = Inr c \<Longrightarrow> validate_opt_str c = Inr x \<Longrightarrow> none_or_str v"
  by (cases v) (auto simp: normalize_code_def none_or_str_def Let_def split: if_splits)

lemma determine_product_line_raises:
  "truthy_non_str x \<Longrightarrow> determine_product_line y x = Inl AttributeError"
  by (cases x)
     (auto simp: determine_product_line_def starts_with_IN_def bind_err_def truthy_non_str_def
        is_str_def)

lemma process_email_needs:
  assumes "process_email email_id subject body data port_map = Inr r"
  shows "is_str email_id \<and> none_or_str (dict_get data ''origin_port_code'')
     \<and> none_or_str (dict_get data ''destination_port_code'')
     \<and> falsy_or_str (dict_get data ''incoterm'')
     \<and> \<not> float_overflows (dict_get data ''cargo_weight_kg'')
     \<and> \<not> float_overflows (dict_get data ''cargo_cbm'')"
proof -
  from process_email_Inr [OF assms] obtain oc dc inco where h:
    "normalize_code port_map (dict_get data ''origin_port_code'') = Inr oc"
    "normalize_code port_map (dict_get data ''destination_port_code'') = Inr dc"
    "normalize_incoterm (dict_get data ''incoterm'') = Inr inco"
    "round_metric (dict_get data ''cargo_weight_kg'') = Inr (cargo_weight_kg r)"
    "round_metric (dict_get data ''cargo_cbm'') = Inr (cargo_cbm r)"
    "validate_str email_id = Inr (id_field r)"
    "validate_opt_str oc = Inr (origin_port_code r)"
    "validate_opt_str dc = Inr (destination_port_code r)"
    by blast
  from h(6) have "is_str email_id" by (cases email_id) (simp_all add: is_str_def)
  with normalize_code_validated [OF h(1) h(7)] normalize_code_validated [OF h(2) h(8)]
    normalize_incoterm_Inr [OF h(3)] round_metric_Inr [OF h(4)] round_metric_Inr [OF h(5)]
  show ?thesis by simp
qed

lemma process_email_degrades:
  assumes "process_email email_id subject body data port_map = Inr r"
  shows "PStr (id_field r) = email_id
     \<and> resolved port_map (dict_get data ''origin_port_code'')
           (origin_port_code r) (origin_port_name r)
     \<and> resolved port_map (dict_get data ''destination_port_code'')
           (destination_port_code r) (destination_port_name r)
     \<and> incoterm r = Some (incoterm_of (dict_get data ''incoterm''))
     \<and> (dict_get data ''cargo_weight_kg'' = PNone \<or> float_rejects (dict_get data ''cargo_weight_kg'')
          \<longrightarrow> cargo_weight_kg r = None)
     \<and> (dict_get data ''cargo_cbm'' = PNone \<or> float_rejects (dict_get data ''cargo_cbm'')
          \<longrightarrow> cargo_cbm r = None)
     \<and> is_dangerous r = Some (check_dangerous_goods (subject @ '' '' @ body)
           (dict_get data ''is_dangerous''))"
proof -
  have i: "falsy_or_str (dict_get data ''incoterm'')"
    using process_email_needs [OF assms] by simp
  have w: "m = None" if "w = PNone \<or> float_rejects w" and "round_metric w = Inr m" for w m
  proof -
    from that(2) have "\<not> float_overflows w" by (rule round_metric_Inr)
    from round_metric_degrades [OF this] that show ?thesis by auto
  qed
  from process_email_Inr [OF assms] obtain inco where h:
    "normalize_incoterm (dict_get data ''incoterm'') = Inr inco"
    "round_metric (dict_get data ''cargo_weight_kg'') = Inr (cargo_weight_kg r)"
    "round_metric (dict_get data ''cargo_cbm'') = Inr (cargo_cbm r)"
    "validate_str email_id = Inr (id_field r)"
    "incoterm r = Some inco"
    "is_dangerous r = Some (check_dangerous_goods (subject @ '' '' @ body)
           (dict_get data ''is_dangerous''))"
    by blast
  have a: "PStr (id_field r) = email_id" using h(4) by (rule validate_str_Inr)
  have b: "incoterm r = Some (incoterm_of (dict_get data ''incoterm''))"
    using h(1,5) normalize_incoterm_rule [OF i] by simp
  have c: "dict_get data ''cargo_weight_kg'' = PNone \<or> float_rejects (dict_get data ''cargo_weight_kg'')
          \<longrightarrow> cargo_weight_kg r = None"
    using w [OF _ h(2)] by blast
  have d: "dict_get data ''cargo_cbm'' = PNone \<or> float_rejects (dict_get data ''cargo_cbm'')
          \<longrightarrow> cargo_cbm r = None"
    using w [OF _ h(3)] by blast
  from a b c d h(6) process_email_resolved [OF assms] show ?thesis by blast
qed

text \<open>
  C1 (amended). The assembler returns a record whenever the email id is a string, each port
  code of the draft is null or a string, the draft's product line and incoterm are falsy
  or strings, and no cargo value is an integer too large for a double. It returns on no
  other id, port code, incoterm or cargo value. In a returned record malformed input has
  become an absent value or a default: a null port code, and a non-empty one that is not a
  key of the reference map, leave code and name null; an incoterm that is not one of the
  ten is FOB; a cargo value that is null or that \<^verbatim>\<open>float\<close> refuses is absent; the
  dangerous-goods flag is the classifier's. A port code or an incoterm that is truthy and
  not a string makes the assembler raise AttributeError.

  The normalizers alone: the incoterm normalizer returns one of the ten incoterms, FOB by
  default, on every falsy or string value, and raises AttributeError on every other; the
  product-line deriver returns on every pair of optional codes and raises AttributeError
  on a truthy destination that is not a string; the numeric coercer returns on every value
  but an integer too large for a double, where it raises OverflowError, and returns
  nothing for a null and a refused value; the classifier is a total function of the text,
  false where no positive pattern occurs.
\<close>

theorem process_email_returns:
  "(is_str email_id \<and> none_or_str (dict_get data ''origin_port_code'')
      \<and> none_or_str (dict_get data ''destination_port_code'')
      \<and> falsy_or_str (dict_get data ''product_line'')
      \<and> falsy_or_str (dict_get data ''incoterm'')
      \<and> \<not> float_overflows (dict_get data ''cargo_weight_kg'')
      \<and> \<not> float_overflows (dict_get data ''cargo_cbm'')
      \<longrightarrow> (\<exists>r. process_email email_id subject body data port_map = Inr r))
   \<and> (process_email email_id subject body data port_map = Inr r \<longrightarrow>
        is_str email_id \<and> none_or_str (dict_get data ''origin_port_code'')
        \<and> none_or_str (dict_get data ''destination_port_code'')
        \<and> falsy_or_str (dict_get data ''incoterm'')
        \<and> \<not> float_overflows (dict_get data ''cargo_weight_kg'')
        \<and> \<not> float_overflows (dict_get data ''cargo_cbm'')
        \<and> PStr (id_field r) = email_id
        \<and> resolved port_map (dict_get data ''origin_port_code'')
              (origin_port_code r) (origin_port_name r)
        \<and> resolved port_map (dict_get data ''destination_port_code'')
              (destination_port_code r) (destination_port_name r)
        \<and> incoterm r = Some (incoterm_of (dict_get data ''incoterm''))
        \<and> (dict_get data ''cargo_weight_kg'' = PNone
             \<or> float_rejects (dict_get data ''cargo_weight_kg'') \<longrightarrow> cargo_weight_kg r = None)
        \<and> (dict_get data ''cargo_cbm'' = PNone
             \<or> float_rejects (dict_get data ''cargo_cbm'') \<longrightarrow> cargo_cbm r = None)
        \<and> is_dangerous r = Some (check_dangerous_goods (subject @ '' '' @ body)
              (dict_get data ''is_dangerous'')))
   \<and> (truthy_non_str (dict_get draft ''origin_port_code'')
        \<or> truthy_non_str (dict_get draft ''destination_port_code'')
        \<or> truthy_non_str (dict_get draft ''incoterm'')
      \<longrightarrow> process_email email_id subject body draft port_map = Inl AttributeError)
   \<and> (falsy_or_str v \<longrightarrow>
        normalize_incoterm v = Inr (incoterm_of v) \<and> incoterm_of v \<in> set valid_incoterms)
   \<and> (truthy_non_str u \<longrightarrow> normalize_incoterm u = Inl AttributeError)
   \<and> (\<exists>p. determine_product_line (opt_str oc) (opt_str dc) = Inr p)
   \<and> (truthy_non_str x \<longrightarrow> determine_product_line y x = Inl AttributeError)
   \<and> (\<not> float_overflows w \<longrightarrow>
        (\<exists>m. round_metric w = Inr m \<and> (w = PNone \<or> float_rejects w \<longrightarrow> m = None)))
   \<and> (float_overflows z \<longrightarrow> round_metric z = Inl OverflowError)
   \<and> (\<not> positive_occurs (py_lower t) \<longrightarrow> check_dangerous_goods t h = False)"
proof (intro conjI)
  show "is_str email_id \<and> none_or_str (dict_get data ''origin_port_code'')
      \<and> none_or_str (dict_get data ''destination_port_code'')
      \<and> falsy_or_str (dict_get data ''product_line'')
      \<and> falsy_or_str (dict_get data ''incoterm'')
      \<and> \<not> float_overflows (dict_get data ''cargo_weight_kg'')
      \<and> \<not> float_overflows (dict_get data ''cargo_cbm'')
      \<longrightarrow> (\<exists>r. process_email email_id subject body data port_map = Inr r)"
    using process_email_ok [of email_id data subject body port_map] by blast
  show "process_email email_id subject body data port_map = Inr r \<longrightarrow>
        is_str email_id \<and> none_or_str (dict_get data ''origin_port_code'')
        \<and> none_or_str (dict_get data ''destination_port_code'')
        \<and> falsy_or_str (dict_get data ''incoterm'')
        \<and> \<not> float_overflows (dict_get data ''cargo_weight_kg'')
        \<and> \<not> float_overflows (dict_get data ''cargo_cbm'')
        \<and> PStr (id_field r) = email_id
        \<and> resolved port_map (dict_get data ''origin_port_code'')
              (origin_port_code r) (origin_port_name r)
        \<and> resolved port_map (dict_get data ''destination_port_code'')
              (destination_port_code r) (destination_port_name r)
        \<and> incoterm r = Some (incoterm_of (dict_get data ''incoterm''))
        \<and> (dict_get data ''cargo_weight_kg'' = PNone
             \<or> float_rejects (dict_get data ''cargo_weight_kg'') \<longrightarrow> cargo_weight_kg r = None)
        \<and> (dict_get data ''cargo_cbm'' = PNone
             \<or> float_rejects (dict_get data ''cargo_cbm'') \<longrightarrow> cargo_cbm r = None)
        \<and> is_dangerous r = Some (check_dangerous_goods (subject @ '' '' @ body)
              (dict_get data ''is_dangerous''))"
    using process_email_needs [of email_id subject body data port_map r]
      process_email_degrades [of email_id subject body data port_map r]
    by blast
  show "truthy_non_str (dict_get draft ''origin_port_code'')
        \<or> truthy_non_str (dict_get draft ''destination_port_code'')
        \<or> truthy_non_str (dict_get draft ''incoterm'')
      \<longrightarrow> process_email email_id subject body draft port_map = Inl AttributeError"
    using process_email_raises [of draft email_id subject body port_map] by blast
  show "falsy_or_str v \<longrightarrow>
        normalize_incoterm v = Inr (incoterm_of v) \<and> incoterm_of v \<in> set valid_incoterms"
    using normalize_incoterm_rule [of v] by blast
  show "truthy_non_str u \<longrightarrow> normalize_incoterm u = Inl AttributeError"
    using normalize_incoterm_raises [of u] by blast
  show "\<exists>p. determine_product_line (opt_str oc) (opt_str dc) = Inr p"
    by (simp add: determine_product_line_opt)
  show "truthy_non_str x \<longrightarrow> determine_product_line y x = Inl AttributeError"
    using determine_product_line_raises [of x y] by blast
  show "\<not> float_overflows w \<longrightarrow>
        (\<exists>m. round_metric w = Inr m \<and> (w = PNone \<or> float_rejects w \<longrightarrow> m = None))"
    using round_metric_degrades [of w] by blast
  show "float_overflows z \<longrightarrow> round_metric z = Inl OverflowError"
    using round_metric_overflow [of z] by blast
  show "\<not> positive_occurs (py_lower t) \<longrightarrow> check_dangerous_goods t h = False"
    by (simp add: check_dangerous_goods_iff)
qed

text \<open>
  The theorem at a draft with an unknown origin code, a known destination code in lower
  case, an incoterm that is none of the ten and a cargo weight that is no number; and at
  a draft whose origin code is a list.
\<close>

theorem process_email_returns_witness:
  "is_str (PStr ''e1'') \<and> none_or_str (dict_get malformed_draft ''origin_port_code'')
   \<and> none_or_str (dict_get malformed_draft ''destination_port_code'')
   \<and> falsy_or_str (dict_get malformed_draft ''product_line'')
   \<and> falsy_or_str (dict_get malformed_draft ''incoterm'')
   \<and> \<not> float_overflows (dict_get malformed_draft ''cargo_weight_kg'')
   \<and> \<not> float_overflows (dict_get malformed_draft ''cargo_cbm'')
   \<and> float_rejects (dict_get malformed_draft ''cargo_weight_kg'')
   \<and> dict_get malformed_draft ''cargo_cbm'' = PNone
   \<and> process_email (PStr ''e1'') ''Rate request'' ''Garments, 20 cartons'' malformed_draft
        example_reference
      = Inr \<lparr> id_field = ''e1'', product_line = Some ''pl_sea_import_lcl'',
          origin_port_code = None, origin_port_name = None,
          destination_port_code = Some ''INMAA'', destination_port_name = Some ''Chennai ICD'',
          incoterm = Some ''FOB'', cargo_weight_kg = None,
          cargo_cbm = None, is_dangerous = Some False \<rparr>
   \<and> resolved example_reference (PStr ''zzzzz'') None None
   \<and> resolved example_reference (PStr ''inmaa'') (Some ''INMAA'') (Some ''Chennai ICD'')
   \<and> incoterm_of (PStr ''free on board'') = ''FOB''
   \<and> truthy_non_str (dict_get (map_of [(''origin_port_code'', PList [PStr ''INMAA''])])
        ''origin_port_code'')
   \<and> process_email (PStr ''e1'') ''Rate request'' ''Garments, 20 cartons''
        (map_of [(''origin_port_code'', PList [PStr ''INMAA''])]) example_reference
      = Inl AttributeError
   \<and> falsy_or_str (PStr ''cif '') \<and> normalize_incoterm (PStr ''cif '') = Inr ''CIF''
   \<and> truthy_non_str (PBool True) \<and> normalize_incoterm (PBool True) = Inl AttributeError
   \<and> truthy_non_str (PInt 7) \<and> determine_product_line PNone (PInt 7) = Inl AttributeError
   \<and> \<not> float_overflows (PStr ''12 kg'') \<and> float_rejects (PStr ''12 kg'')
   \<and> round_metric (PStr ''12 kg'') = Inr None
   \<and> float_overflows (PInt (2 ^ 1024)) \<and> round_metric (PInt (2 ^ 1024)) = Inl OverflowError
   \<and> \<not> positive_occurs (py_lower ''Garments, 20 cartons'')
   \<and> check_dangerous_goods ''Garments, 20 cartons'' (PBool True) = False"
proof -
  let ?r = "\<lparr> id_field = ''e1'', product_line = Some ''pl_sea_import_lcl'',
          origin_port_code = None, origin_port_name = None,
          destination_port_code = Some ''INMAA'', destination_port_name = Some ''Chennai ICD'',
          incoterm = Some ''FOB'', cargo_weight_kg = None,
          cargo_cbm = None, is_dangerous = Some False \<rparr>"
  let ?bad = "map_of [(''origin_port_code'', PList [PStr ''INMAA''])]"
  have g: "dict_get malformed_draft ''origin_port_code'' = PStr ''zzzzz''"
    "dict_get malformed_draft ''destination_port_code'' = PStr ''inmaa''"
    "dict_get malformed_draft ''product_line'' = PNone"
    "dict_get malformed_draft ''incoterm'' = PStr ''free on board''"
    "dict_get malformed_draft ''cargo_weight_kg'' = PStr ''12 kg''"
    "dict_get malformed_draft ''cargo_cbm'' = PNone"
    by (simp_all add: malformed_draft_def dict_get_def)
  have fr: "float_rejects (PStr ''12 kg'')"
    unfolding float_rejects_def by code_simp
  have h: "is_str (PStr ''e1'')" "none_or_str (dict_get malformed_draft ''origin_port_code'')"
    "none_or_str (dict_get malformed_draft ''destination_port_code'')"
    "falsy_or_str (dict_get malformed_draft ''product_line'')"
    "falsy_or_str (dict_get malformed_draft ''incoterm'')"
    "\<not> float_overflows (dict_get malformed_draft ''cargo_weight_kg'')"
    "\<not> float_overflows (dict_get malformed_draft ''cargo_cbm'')"
    "falsy_or_str (PStr ''cif '')" "\<not> float_overflows (PStr ''12 kg'')"
    "truthy_non_str (PBool True)" "truthy_non_str (PInt 7)"
    by (simp_all add: g is_str_def none_or_str_def falsy_or_str_def float_overflows_def
        truthy_non_str_def)
  have b: "truthy_non_str (dict_get ?bad ''origin_port_code'')"
    by (simp add: truthy_non_str_def is_str_def dict_get_def)
  have ov: "float_overflows (PInt (2 ^ 1024))"
    by (rule float_overflows_large) simp
  have e: "process_email (PStr ''e1'') ''Rate request'' ''Garments, 20 cartons'' malformed_draft
        example_reference = Inr ?r"
    by code_simp
  have np: "\<not> positive_occurs (py_lower ''Garments, 20 cartons'')"
    unfolding positives_search [symmetric] by code_simp
  have c: "incoterm_of (PStr ''free on board'') = ''FOB''" "incoterm_of (PStr ''cif '') = ''CIF''"
    by code_simp+
  note t = process_email_returns [of "PStr ''e1''" malformed_draft "''Rate request''"
      "''Garments, 20 cartons''" example_reference ?r ?bad "PStr ''cif ''" "PBool True"
      None None "PInt 7" PNone "PStr ''12 kg''" "PInt (2 ^ 1024)" "''Garments, 20 cartons''"
      "PBool True"]
  from t e have r: "resolved example_reference (dict_get malformed_draft ''origin_port_code'')
        (origin_port_code ?r) (origin_port_name ?r)"
    "resolved example_reference (dict_get malformed_draft ''destination_port_code'')
        (destination_port_code ?r) (destination_port_name ?r)"
    by blast+
  from t h b have a: "process_email (PStr ''e1'') ''Rate request'' ''Garments, 20 cartons''
        ?bad example_reference = Inl AttributeError"
    "normalize_incoterm (PStr ''cif '') = Inr (incoterm_of (PStr ''cif ''))"
    "normalize_incoterm (PBool True) = Inl AttributeError"
    "determine_product_line PNone (PInt 7) = Inl AttributeError"
    by blast+
  from t h fr have m: "\<exists>m. round_metric (PStr ''12 kg'') = Inr m \<and> m = None"
    by blast
  from t ov have o: "round_metric (PInt (2 ^ 1024)) = Inl OverflowError"
    by blast
  from t np have d: "check_dangerous_goods ''Garments, 20 cartons'' (PBool True) = False"
    by blast
  from h b g fr e r c a m ov o np d show ?thesis by simp
qed

text \<open>
  C1 as stated fails: a draft whose origin port code is the number 5 makes the assembler
  raise, and so does the incoterm normalizer on the number 5.
\<close>

theorem process_email_raises_on_number_code:
  "process_email (PStr ''e1'') ''Rate request'' ''Please quote.''
     (map_of [(''origin_port_code'', PInt 5)]) example_reference = Inl AttributeError
   \<and> normalize_incoterm (PInt 5) = Inl AttributeError"
  by (simp add: process_email_def normalize_code_def normalize_incoterm_def dict_get_def
      bind_err_def)

subsection \<open>The product line of the record\<close>

text \<open>
  C7 (amended). When the derivation from the normalized codes returns nothing, the record's
  product line is the draft's own value when that value is truthy (the record is only
  built when it is a string, whatever the string), and null when the draft's value is
  falsy: absent, null or empty.
\<close>

theorem product_line_fallback:
  assumes "normalize_code port_map (dict_get data ''origin_port_code'') = Inr oc"
    and "normalize_code port_map (dict_get data ''destination_port_code'') = Inr dc"
    and "determine_product_line oc dc = Inr None"
    and "process_email email_id subject body data port_map = Inr r"
  shows "opt_str (product_line r) =
     (if py_truthy (dict_get data ''product_line'') then dict_get data ''product_line''
      else PNone)"
  using process_email_Inr [OF assms(4)] assms(1-3)
  by (auto dest!: validate_opt_str_Inr)


theorem product_line_fallback_witness:
  "normalize_code example_reference
      (dict_get (map_of [(''product_line'', PStr ''pl_air_import'')]) ''origin_port_code'') = Inr PNone
   \<and> normalize_code example_reference
      (dict_get (map_of [(''product_line'', PStr ''pl_air_import'')]) ''destination_port_code'') = Inr PNone
   \<and> determine_product_line PNone PNone = Inr None
   \<and> process_email (PStr ''e1'') ''Rate request'' ''Please quote.''
        (map_of [(''product_line'', PStr ''pl_air_import'')]) example_reference
      = Inr \<lparr> id_field = ''e1'', product_line = Some ''pl_air_import'',
          origin_port_code = None, origin_port_name = None,
          destination_port_code = None, destination_port_name = None,
          incoterm = Some ''FOB'', cargo_weight_kg = None,
          cargo_cbm = None, is_dangerous = Some False \<rparr>
   \<and> opt_str (Some ''pl_air_import'') =
       (if py_truthy (dict_get (map_of [(''product_line'', PStr ''pl_air_import'')]) ''product_line'')
        then dict_get (map_of [(''product_line'', PStr ''pl_air_import'')]) ''product_line''
        else PNone)"
proof -
  let ?d = "map_of [(''product_line'', PStr ''pl_air_import'')]"
  have h1: "normalize_code example_reference (dict_get ?d ''origin_port_code'') = Inr PNone"
    by code_simp
  have h2: "normalize_code example_reference (dict_get ?d ''destination_port_code'') = Inr PNone"
    by code_simp
  have h3: "determine_product_line PNone PNone = Inr None"
    by code_simp
  have h4: "process_email (PStr ''e1'') ''Rate request'' ''Please quote.'' ?d example_reference
      = Inr \<lparr> id_field = ''e1'', product_line = Some ''pl_air_import'',
          origin_port_code = None, origin_port_name = None,
          destination_port_code = None, destination_port_name = None,
          incoterm = Some ''FOB'', cargo_weight_kg = None,
          cargo_cbm = None, is_dangerous = Some False \<rparr>"
    by code_simp
  from product_line_fallback [OF h1 h2 h3 h4] h1 h2 h3 h4 show ?thesis
    by simp
qed

text \<open>
  C7 as stated fails: with no port codes and the draft's product line the empty string,
  the record's product line is null, not the empty string.
\<close>

theorem product_line_empty_becomes_null:
  "normalize_code example_reference
      (dict_get (map_of [(''product_line'', PStr [])]) ''origin_port_code'') = Inr PNone
   \<and> normalize_code example_reference
      (dict_get (map_of [(''product_line'', PStr [])]) ''destination_port_code'') = Inr PNone
   \<and> determine_product_line PNone PNone = Inr None
   \<and> dict_get (map_of [(''product_line'', PStr [])]) ''product_line'' = PStr []
   \<and> process_email (PStr ''e1'') ''Rate request'' ''Please quote.''
        (map_of [(''product_line'', PStr [])]) example_reference
      = Inr \<lparr> id_field = ''e1'', product_line = None,
          origin_port_code = None, origin_port_name = None,
          destination_port_code = None, destination_port_name = None,
          incoterm = Some ''FOB'', cargo_weight_kg = None,
          cargo_cbm = None, is_dangerous = Some False \<rparr>"
  by code_simp

subsection \<open>The numeric coercer\<close>

text \<open>Rounding to two decimals picks the nearest whole number of hundredths, the even one
  on a tie, and returns the double nearest to it. Every result is a double, and finite
  when the value rounded is a finite double.\<close>

lemma py_round2_not_finite: "\<not> is_finite f \<Longrightarrow> py_round2 f = f"
  by (cases f) simp_all

lemma round_half_even_tie:
  "\<bar>of_int (round_half_even q) - q\<bar> = 1 / 2 \<Longrightarrow> even (round_half_even q)"
proof -
  define f where "f = \<lfloor>q\<rfloor>"
  define d where "d = q - of_int f"
  have d: "0 \<le> d" "d < 1"
    unfolding d_def f_def by linarith+
  assume t: "\<bar>of_int (round_half_even q) - q\<bar> = 1 / 2"
  have r: "round_half_even q =
      (if d < 1 / 2 then f else if 1 / 2 < d then f + 1 else if even f then f else f + 1)"
    unfolding round_half_even_def Let_def f_def [symmetric] d_def [symmetric] ..
  show ?thesis
  proof (cases "d = 1 / 2")
    case True
    then show ?thesis by (simp add: r)
  next
    case False
    then consider "d < 1 / 2" | "1 / 2 < d" by linarith
    then have "\<bar>of_int (round_half_even q) - q\<bar> < 1 / 2"
    proof cases
      case 1
      then show ?thesis using d unfolding r d_def by (simp add: abs_less_iff)
    next
      case 2
      then show ?thesis using d unfolding r d_def by (simp add: abs_less_iff)
    qed
    with t show ?thesis by simp
  qed
qed

lemma hundredths:
  "\<bar>of_int (round_half_even (x * 100)) / 100 - x\<bar> \<le> 1 / 200"
  "\<bar>of_int (round_half_even (x * 100)) / 100 - x\<bar> = 1 / 200
     \<Longrightarrow> even (round_half_even (x * 100))"
proof -
  have s: "\<bar>of_int k / 100 - x\<bar> = \<bar>of_int k - x * 100\<bar> / 100" for k :: int
  proof -
    have "of_int k / 100 - x = (of_int k - x * 100) / 100" by (simp add: field_simps)
    then have "\<bar>of_int k / 100 - x\<bar> = \<bar>(of_int k - x * 100) / 100\<bar>" by (simp only:)
    also have "\<dots> = \<bar>of_int k - x * 100\<bar> / \<bar>100\<bar>" by (rule abs_divide)
    finally show ?thesis by simp
  qed
  show "\<bar>of_int (round_half_even (x * 100)) / 100 - x\<bar> \<le> 1 / 200"
    unfolding s using round_half_even_near [of "x * 100"] by simp
  assume "\<bar>of_int (round_half_even (x * 100)) / 100 - x\<bar> = 1 / 200"
  then have "\<bar>of_int (round_half_even (x * 100)) - x * 100\<bar> = 1 / 2"
    unfolding s by simp
  then show "even (round_half_even (x * 100))" by (rule round_half_even_tie)
qed

lemma float_of_str_is_double: "float_of_str s = Some f \<Longrightarrow> is_double f"
proof -
  have n: "is_double (if b then negate g else g)" if "is_double g" for b g
    using that by (simp add: is_double_negate)
  have i: "is_double PInf" "is_double NInf" "is_double NaN" by (simp_all add: is_double_def)
  assume "float_of_str s = Some f"
  then show ?thesis
    unfolding float_of_str_def Let_def
    by (auto simp: n i to_double_is_double is_double_negate split: if_splits prod.splits)
qed

lemma py_float_is_double: "py_float v = Inr f \<Longrightarrow> float_wf v \<Longrightarrow> is_double f"
proof (cases v)
  case (PInt i)
  assume "py_float v = Inr f"
  with PInt have "to_double (of_int i) = f"
    by (auto split: pyfloat.splits)
  then show ?thesis using to_double_is_double [of "of_int i"] by simp
qed (auto simp: float_wf_def is_double_zero is_double_one float_of_str_is_double
      split: option.splits)

lemma round_metric_Some:
  assumes "round_metric v = Inr (Some y)"
  shows "\<exists>f. py_float v = Inr f \<and> y = py_round2 f"
  using assms by (cases "py_float v") (auto simp: round_metric_def split: if_splits)

lemma py_round2_is_double: "is_double f \<Longrightarrow> is_double (py_round2 f)"
  by (cases f) (simp_all add: to_double_is_double)

text \<open>
  C8 (amended). The coercer returns nothing exactly for a null value and a value that
  \<^verbatim>\<open>float\<close> refuses with ValueError or TypeError. Any other result is the parsed float
  rounded. NaN and the infinities come back unchanged. A finite value \<open>x\<close> gives the
  double nearest to \<open>k/100\<close>, where \<open>k/100\<close> is the whole number of hundredths nearest
  to \<open>x\<close>, the even \<open>k\<close> on a tie; this double need not be a whole number of
  hundredths itself. When the value comes from a JSON file the result is a double, and
  finite when the parsed float is. The cargo fields of a record are these results.
\<close>

theorem round_metric_result:
  "(round_metric v = Inr None \<longleftrightarrow>
      v = PNone \<or> py_float v = Inl ValueError \<or> py_float v = Inl TypeError)
   \<and> (round_metric v = Inr (Some y) \<longrightarrow>
        (\<exists>f. py_float v = Inr f \<and> y = py_round2 f
           \<and> (\<not> is_finite f \<longrightarrow> y = f)
           \<and> (\<forall>x. f = Fin x \<longrightarrow>
                (\<exists>k. \<bar>of_int k / 100 - x\<bar> \<le> 1 / 200
                   \<and> (\<bar>of_int k / 100 - x\<bar> = 1 / 200 \<longrightarrow> even k)
                   \<and> y = to_double (of_int k / 100)))
           \<and> (float_wf v \<longrightarrow> is_double y \<and> (is_finite f \<longrightarrow> is_finite y))))
   \<and> (process_email email_id subject body data port_map = Inr r \<longrightarrow>
        round_metric (dict_get data ''cargo_weight_kg'') = Inr (cargo_weight_kg r)
        \<and> round_metric (dict_get data ''cargo_cbm'') = Inr (cargo_cbm r))"
proof (intro conjI impI)
  show "round_metric v = Inr None \<longleftrightarrow>
      v = PNone \<or> py_float v = Inl ValueError \<or> py_float v = Inl TypeError"
    by (cases "py_float v") (auto simp: round_metric_def)
next
  assume "round_metric v = Inr (Some y)"
  from round_metric_Some [OF this] obtain f where f: "py_float v = Inr f" "y = py_round2 f"
    by blast
  have a: "\<not> is_finite f \<longrightarrow> y = f"
    using py_round2_not_finite [of f] f(2) by simp
  have b: "\<forall>x. f = Fin x \<longrightarrow>
       (\<exists>k. \<bar>of_int k / 100 - x\<bar> \<le> 1 / 200
          \<and> (\<bar>of_int k / 100 - x\<bar> = 1 / 200 \<longrightarrow> even k)
          \<and> y = to_double (of_int k / 100))"
  proof (intro allI impI)
    fix x assume "f = Fin x"
    then have "y = to_double (of_int (round_half_even (x * 100)) / 100)"
      using f(2) by simp
    with hundredths [of x]
    show "\<exists>k. \<bar>of_int k / 100 - x\<bar> \<le> 1 / 200
          \<and> (\<bar>of_int k / 100 - x\<bar> = 1 / 200 \<longrightarrow> even k)
          \<and> y = to_double (of_int k / 100)"
      by (intro exI [of _ "round_half_even (x * 100)"]) blast
  qed
  have c: "float_wf v \<longrightarrow> is_double y \<and> (is_finite f \<longrightarrow> is_finite y)"
  proof (intro impI conjI)
    assume "float_wf v"
    with f(1) have d: "is_double f" by (rule py_float_is_double)
    then show "is_double y" unfolding f(2) by (rule py_round2_is_double)
    assume "is_finite f"
    then obtain x where "f = Fin x" by (cases f) simp_all
    with d show "is_finite y" unfolding f(2) by (simp only: py_round2_finite)
  qed
  from f a b c
  show "\<exists>f. py_float v = Inr f \<and> y = py_round2 f
           \<and> (\<not> is_finite f \<longrightarrow> y = f)
           \<and> (\<forall>x. f = Fin x \<longrightarrow>
                (\<exists>k. \<bar>of_int k / 100 - x\<bar> \<le> 1 / 200
                   \<and> (\<bar>of_int k / 100 - x\<bar> = 1 / 200 \<longrightarrow> even k)
                   \<and> y = to_double (of_int k / 100)))
           \<and> (float_wf v \<longrightarrow> is_double y \<and> (is_finite f \<longrightarrow> is_finite y))"
    by blast
next
  assume "process_email email_id subject body data port_map = Inr r"
  from process_email_Inr [OF this]
  show "round_metric (dict_get data ''cargo_weight_kg'') = Inr (cargo_weight_kg r)"
    and "round_metric (dict_get data ''cargo_cbm'') = Inr (cargo_cbm r)"
    by auto
qed

text \<open>
  The theorem at the text \<^verbatim>\<open>2.675\<close>, which parses to the double just below 2.675 and so
  rounds down to the double of 2.67; with other inputs beside it.
\<close>

theorem round_metric_result_witness:
  "round_metric (PStr ''2.675'') = Inr (Some (Fin (1503076375634903 / 562949953421312)))
   \<and> py_float (PStr ''2.675'') = Inr (Fin (3011782250804019 / 1125899906842624))
   \<and> float_wf (PStr ''2.675'')
   \<and> (\<exists>k. \<bar>of_int k / 100 - 3011782250804019 / 1125899906842624 :: rat\<bar> \<le> 1 / 200
        \<and> (\<bar>of_int k / 100 - 3011782250804019 / 1125899906842624 :: rat\<bar> = 1 / 200 \<longrightarrow> even k)
        \<and> Fin (1503076375634903 / 562949953421312) = to_double (of_int k / 100))
   \<and> is_double (Fin (1503076375634903 / 562949953421312))
   \<and> round_metric (PFloat (Fin (2199027653598511 / 4398046511104))) = Inr (Some (Fin 500))
   \<and> round_metric (PStr ''-Infinity'') = Inr (Some NInf) \<and> \<not> is_finite NInf
   \<and> round_metric (PStr ''12 kg'') = Inr None \<and> py_float (PStr ''12 kg'') = Inl ValueError
   \<and> round_metric PNone = Inr None
   \<and> process_email (PStr ''e1'') ''Shipment is'' ''non-hazardous.'' example_draft
        example_reference
      = Inr \<lparr> id_field = ''e1'', product_line = Some ''pl_sea_import_lcl'',
          origin_port_code = Some ''HKHKG'', origin_port_name = Some ''Hong Kong'',
          destination_port_code = Some ''INMAA'', destination_port_name = Some ''Chennai ICD'',
          incoterm = Some ''FOB'', cargo_weight_kg = Some (Fin 500),
          cargo_cbm = None, is_dangerous = Some False \<rparr>
   \<and> round_metric (dict_get example_draft ''cargo_weight_kg'') = Inr (Some (Fin 500))
   \<and> round_metric (dict_get example_draft ''cargo_cbm'') = Inr None"
proof -
  let ?r = "\<lparr> id_field = ''e1'', product_line = Some ''pl_sea_import_lcl'',
          origin_port_code = Some ''HKHKG'', origin_port_name = Some ''Hong Kong'',
          destination_port_code = Some ''INMAA'', destination_port_name = Some ''Chennai ICD'',
          incoterm = Some ''FOB'', cargo_weight_kg = Some (Fin 500),
          cargo_cbm = None, is_dangerous = Some False \<rparr>"
  let ?x = "3011782250804019 / 1125899906842624 :: rat"
  let ?y = "Fin (1503076375634903 / 562949953421312)"
  have e1: "round_metric (PStr ''2.675'') = Inr (Some ?y)"
    by code_simp
  have e2: "py_float (PStr ''2.675'') = Inr (Fin ?x)"
    by code_simp
  have e3: "float_wf (PStr ''2.675'')"
    by (simp add: float_wf_def)
  have e4: "round_metric (PFloat (Fin (2199027653598511 / 4398046511104))) = Inr (Some (Fin 500))"
    by code_simp
  have e5: "round_metric (PStr ''-Infinity'') = Inr (Some NInf)"
    by code_simp
  have e6: "py_float (PStr ''12 kg'') = Inl ValueError"
    by code_simp
  have e7: "process_email (PStr ''e1'') ''Shipment is'' ''non-hazardous.'' example_draft
        example_reference = Inr ?r"
    by code_simp
  note t = round_metric_result [of "PStr ''2.675''" ?y "PStr ''e1''"
      "''Shipment is''" "''non-hazardous.''" example_draft example_reference ?r]
  from t e1 obtain f where f: "py_float (PStr ''2.675'') = Inr f"
    "\<forall>x. f = Fin x \<longrightarrow>
       (\<exists>k. \<bar>of_int k / 100 - x\<bar> \<le> 1 / 200
          \<and> (\<bar>of_int k / 100 - x\<bar> = 1 / 200 \<longrightarrow> even k)
          \<and> ?y = to_double (of_int k / 100))"
    "float_wf (PStr ''2.675'') \<longrightarrow> is_double ?y \<and> (is_finite f \<longrightarrow> is_finite ?y)"
    by blast
  from f(1) e2 have "f = Fin ?x" by simp
  with f(2) have a: "\<exists>k. \<bar>of_int k / 100 - ?x\<bar> \<le> 1 / 200
        \<and> (\<bar>of_int k / 100 - ?x\<bar> = 1 / 200 \<longrightarrow> even k)
        \<and> ?y = to_double (of_int k / 100)"
    by blast
  from f(3) e3 have b: "is_double ?y" by blast
  from t e7 have c: "round_metric (dict_get example_draft ''cargo_weight_kg'') = Inr (Some (Fin 500))"
    "round_metric (dict_get example_draft ''cargo_cbm'') = Inr None"
    by auto
  from round_metric_result [of "PStr ''12 kg''"] e6
  have d: "round_metric (PStr ''12 kg'') = Inr None" by blast
  from round_metric_result [of PNone] have g: "round_metric PNone = Inr None"
    by blast
  have h: "\<not> is_finite NInf" by simp
  from e1 e2 e3 a b e4 e5 h e6 d g e7 c show ?thesis by blast
qed

text \<open>
  C8 as stated fails: the string \<^verbatim>\<open>nan\<close> is accepted by the numeric parse, the coercer
  returns NaN for it, and the record carries NaN as its cargo weight.
\<close>

theorem round_metric_nan:
  "round_metric (PStr ''nan'') = Inr (Some NaN) \<and> \<not> is_finite NaN
   \<and> process_email (PStr ''e1'') ''Rate request'' ''Please quote.''
        (map_of [(''cargo_weight_kg'', PStr ''nan'')]) example_reference
      = Inr \<lparr> id_field = ''e1'', product_line = None,
          origin_port_code = None, origin_port_name = None,
          destination_port_code = None, destination_port_name = None,
          incoterm = Some ''FOB'', cargo_weight_kg = Some NaN,
          cargo_cbm = None, is_dangerous = Some False \<rparr>"
  by code_simp

subsection \<open>The port reference\<close>

lemma names_at_append_name:
  "names_at (append_name T c n) k = (if k = c then names_at T c @ [n] else names_at T k)"
  by (induction T c n rule: append_name.induct) (auto simp: names_at_def)

lemma keys_append_name: "fst ` set (append_name T c n) = insert c (fst ` set T)"
  by (induction T c n rule: append_name.induct) auto

lemma distinct_append_name:
  "distinct (map fst T) \<Longrightarrow> distinct (map fst (append_name T c n))"
proof (induction T c n rule: append_name.induct)
  case (1 c n)
  show ?case by simp
next
  case (2 k ns rest c n)
  then show ?case
    using keys_append_name [of rest c n] by (auto simp: image_iff)
qed

lemma nonempty_append_name:
  "list_all (\<lambda>(k, ns). ns \<noteq> []) T \<Longrightarrow> list_all (\<lambda>(k, ns). ns \<noteq> []) (append_name T c n)"
  by (induction T c n rule: append_name.induct) auto

lemma names_of_Cons:
  "names_of k ((code, name) # es) =
     (case (code, name) of
        (Some c, Some n) \<Rightarrow> if c = k \<and> c \<noteq> [] \<and> n \<noteq> [] then [n] else []
      | _ \<Rightarrow> []) @ names_of k es"
  by (simp add: names_of_def)

lemma names_at_collect:
  "names_at (collect es T) k = names_at T k @ names_of k es"
proof (induction es T rule: collect.induct)
  case (1 T)
  show ?case by (simp add: names_of_def)
next
  case (2 code name rest T)
  then show ?case
    by (cases code; cases name) (auto simp: names_of_Cons names_at_append_name)
qed

lemma distinct_collect:
  "distinct (map fst T) \<Longrightarrow> distinct (map fst (collect es T))"
  by (induction es T rule: collect.induct) (auto simp: distinct_append_name split: option.splits)

lemma nonempty_collect:
  "list_all (\<lambda>(k, ns). ns \<noteq> []) T \<Longrightarrow> list_all (\<lambda>(k, ns). ns \<noteq> []) (collect es T)"
  by (induction es T rule: collect.induct) (auto simp: nonempty_append_name split: option.splits)


lemma select_name_nonempty:
  "ns \<noteq> [] \<Longrightarrow> select_name c ns =
     Inr (if c = ''INMAA'' then (case find preferred ns of Some n \<Rightarrow> n | None \<Rightarrow> hd ns)
          else hd ns)"
  by (cases ns) (auto simp: select_name_def split: option.splits)

lemma select_all_result:
  assumes "distinct (map fst A)" and "list_all (\<lambda>(k, ns). ns \<noteq> []) A"
  shows "select_all A M =
     Inr (\<lambda>k. case map_of A k of
                None \<Rightarrow> M k
              | Some ns \<Rightarrow>
                  Some (if k = ''INMAA''
                        then (case find preferred ns of Some n \<Rightarrow> n | None \<Rightarrow> hd ns)
                        else hd ns))"
  using assms
proof (induction A M rule: select_all.induct)
  case (1 M)
  show ?case by simp
next
  case (2 c names rest M)
  from "2.prems" have ne: "names \<noteq> []" and d: "distinct (map fst rest)"
    and r: "list_all (\<lambda>(k, ns). ns \<noteq> []) rest" and c: "map_of rest c = None"
    by (auto simp: map_of_eq_None_iff image_iff)
  note s = select_name_nonempty [OF ne, of c]
  have "select_all ((c, names) # rest) M =
      select_all rest (M(c \<mapsto> (if c = ''INMAA''
          then (case find preferred names of Some n \<Rightarrow> n | None \<Rightarrow> hd names) else hd names)))"
    by (simp add: s bind_err_def)
  also have "\<dots> = Inr (\<lambda>k. case map_of rest k of
                None \<Rightarrow> (M(c \<mapsto> (if c = ''INMAA''
          then (case find preferred names of Some n \<Rightarrow> n | None \<Rightarrow> hd names) else hd names))) k
              | Some ns \<Rightarrow>
                  Some (if k = ''INMAA''
                        then (case find preferred ns of Some n \<Rightarrow> n | None \<Rightarrow> hd ns)
                        else hd ns))"
    using "2.IH" [OF d r] .
  also have "\<dots> = Inr (\<lambda>k. case map_of ((c, names) # rest) k of
                None \<Rightarrow> M k
              | Some ns \<Rightarrow>
                  Some (if k = ''INMAA''
                        then (case find preferred ns of Some n \<Rightarrow> n | None \<Rightarrow> hd ns)
                        else hd ns))"
    using c by (auto simp: fun_eq_iff split: option.splits)
  finally show ?case .
qed

lemma map_of_names_at:
  "list_all (\<lambda>(k, ns). ns \<noteq> []) A \<Longrightarrow>
   map_of A k = (if names_at A k = [] then None else Some (names_at A k))"
  by (induction A) (auto simp: names_at_def)

lemma load_port_reference_eq:
  "load_port_reference (Some entries) = Inr (selection_policy entries)"
proof -
  let ?A = "collect entries []"
  have d: "distinct (map fst ?A)" by (rule distinct_collect) simp
  have n: "list_all (\<lambda>(k, ns). ns \<noteq> []) ?A" by (rule nonempty_collect) simp
  have a: "names_at ?A k = names_of k entries" for k
    using names_at_collect [of entries "[]" k] by (simp add: names_at_def)
  have "(case map_of ?A k of None \<Rightarrow> None
         | Some ns \<Rightarrow> Some (if k = ''INMAA''
             then (case find preferred ns of Some n \<Rightarrow> n | None \<Rightarrow> hd ns) else hd ns))
        = selection_policy entries k" for k
    unfolding map_of_names_at [OF n] a selection_policy_def
    by (cases "names_of k entries") (auto split: option.splits)
  then show ?thesis
    unfolding load_port_reference_def
    by (simp add: select_all_result [OF d n])
qed


text \<open>
  C3. The builder never raises, and the map it returns is the selection policy: entries
  with a missing (or null, or empty) code or name are skipped, a code maps to the first
  name kept for it, and INMAA maps to the first kept name that contains Chennai and not
  Bangalore, or to its first kept name when there is none.
\<close>

theorem load_port_reference_policy:
  "load_port_reference (Some entries) = Inr (selection_policy entries)"
  by (rule load_port_reference_eq)

lemma preferred_examples: "preferred ''Chennai ICD''" "\<not> preferred ''Bangalore ICD''"
  by code_simp+

lemma load_port_reference_example:
  "load_port_reference (Some example_entries) = Inr example_reference"
proof -
  have "selection_policy example_entries k = example_reference k" for k
    by (simp add: selection_policy_def names_of_def example_entries_def example_reference_def
        preferred_examples)
  then show ?thesis
    unfolding load_port_reference_eq by (simp add: fun_eq_iff)
qed


subsection \<open>The comparator\<close>

lemma py_upper_char_not_lower: "\<not> is_ascii_lower (py_upper_char c)"
  by (auto simp: py_upper_char_def is_ascii_lower_def Let_def)

lemma is_ascii_lower_n: "is_ascii_lower CHR ''n''"
  by code_simp

lemma py_upper_not_null: "py_upper s \<noteq> ''null''"
proof
  assume a: "py_upper s = ''null''"
  then obtain c cs where "s = c # cs" by (cases s) (auto simp: py_upper_def)
  with a have "py_upper_char c = CHR ''n''" by (simp add: py_upper_def)
  with py_upper_char_not_lower [of c] is_ascii_lower_n show False by simp
qed

lemma normalize_string_not_null: "v \<noteq> PNone \<Longrightarrow> normalize_string repr v \<noteq> ''null''"
  by (simp add: normalize_string_def py_upper_not_null)

lemma normalize_string_None: "normalize_string repr PNone = ''null''"
  by (simp add: normalize_string_def)

lemma compare_floats_None:
  "v \<noteq> PNone \<Longrightarrow> compare_floats PNone v = Inr False \<and> compare_floats v PNone = Inr False"
  by (simp add: compare_floats_def)

lemma compare_values_None:
  "v \<noteq> PNone \<Longrightarrow>
   compare_values repr g PNone v = Inr False \<and> compare_values repr g v PNone = Inr False"
  using normalize_string_not_null [of v repr] compare_floats_None [of v]
  by (auto simp: compare_values_def normalize_string_None Let_def)

lemma py_round2_NaN: "py_round2 x = NaN \<longleftrightarrow> x = NaN"
  by (cases x) (simp_all add: to_double_not_NaN)

lemma compare_floats_opt:
  assumes "a \<noteq> Some NaN" "b \<noteq> Some NaN"
  shows "compare_floats (opt_float a) (opt_float b) =
     Inr ((a = None \<and> b = None) \<or> (\<exists>x y. a = Some x \<and> b = Some y \<and> py_round2 x = py_round2 y))"
  using assms
  by (cases a; cases b) (auto simp: compare_floats_def bind_err_def float_eq_def py_round2_NaN)

lemma compare_values_same_string:
  "f \<notin> set [''cargo_weight_kg'', ''cargo_cbm''] \<Longrightarrow> compare_values repr f v v = Inr True"
  by (simp add: compare_values_def)

lemma compare_values_same_float:
  "a \<noteq> Some NaN \<Longrightarrow> compare_values repr f (opt_float a) (opt_float a) = Inr True"
  using compare_floats_opt [of a a] by (cases a) (auto simp: compare_values_def)

lemma count_field_counts:
  "total_fields (count_field f b m) = total_fields m + 1"
  "correct_fields (count_field f True m) = correct_fields m + 1"
  by (simp_all add: count_field_def)

lemma eval_fields_all_true:
  assumes "\<forall>f \<in> set fs. compare_values repr f (dict_get t f) (dict_get p f) = Inr True"
  shows "\<exists>m'. eval_fields repr fs t p m = Inr m'
     \<and> total_fields m' = total_fields m + length fs
     \<and> correct_fields m' = correct_fields m + length fs"
  using assms
proof (induction fs arbitrary: m)
  case Nil
  show ?case by simp
next
  case (Cons f fs)
  from Cons.prems have c: "compare_values repr f (dict_get t f) (dict_get p f) = Inr True"
    and rest: "\<forall>g \<in> set fs. compare_values repr g (dict_get t g) (dict_get p g) = Inr True"
    by auto
  from Cons.IH [OF rest, where m = "count_field f True m"]
  show ?case by (auto simp: c bind_err_def count_field_counts)
qed

lemma to_json_same:
  assumes "cargo_weight_kg r \<noteq> Some NaN" "cargo_cbm r \<noteq> Some NaN"
  shows "\<forall>f \<in> set fields_to_evaluate.
     compare_values repr f (dict_get (to_json r) f) (dict_get (to_json r) f) = Inr True"
  using assms
  by (simp add: fields_to_evaluate_def to_json_def dict_get_def compare_values_same_string
      compare_values_same_float)

lemma key_eq_PStr: "key_eq (PStr s) (PStr s)"
  by (simp add: key_eq_def)

lemma evaluate_accuracy_same:
  assumes "cargo_weight_kg r \<noteq> Some NaN" "cargo_cbm r \<noteq> Some NaN"
  shows "\<exists>m. evaluate_accuracy repr [to_json r] [to_json r] = Inr (Some m)
     \<and> correct_fields m = 9 \<and> total_fields m = 9 \<and> overall_acc m = 100"
proof -
  have id: "to_json r ''id'' = Some (PStr (id_field r))"
    by (simp add: to_json_def)
  have ix: "index_by_id [to_json r] [] = Inr [(PStr (id_field r), to_json r)]"
    by (simp add: id)
  have len: "length fields_to_evaluate = 9"
    by (simp add: fields_to_evaluate_def)
  have tm: "total_fields initial_metrics = 0" "correct_fields initial_metrics = 0"
    by (simp_all add: initial_metrics_def)
  obtain m where m: "eval_fields repr fields_to_evaluate (to_json r) (to_json r) initial_metrics = Inr m"
    "total_fields m = 9" "correct_fields m = 9"
    using eval_fields_all_true [OF to_json_same [OF assms, of repr], where m = initial_metrics]
    by (auto simp: len tm)
  have "evaluate_accuracy repr [to_json r] [to_json r] = Inr (Some m)"
    unfolding evaluate_accuracy_def ix
    by (simp add: bind_err_def key_eq_PStr m(1))
  with m(2,3) show ?thesis
    by (auto simp: overall_acc_def)
qed


lemma compare_floats_parsed:
  "v1 \<noteq> PNone \<Longrightarrow> v2 \<noteq> PNone \<Longrightarrow> py_float v1 = Inr x \<Longrightarrow> py_float v2 = Inr y \<Longrightarrow>
   compare_floats v1 v2 = Inr (float_eq (py_round2 x) (py_round2 y))"
  by (simp add: compare_floats_def bind_err_def)

text \<open>
  C9. Comparing a shipment record whose cargo numbers are not NaN against an identical
  copy counts all nine fields correct: 100 percent. On the numeric fields two nulls are
  equal, and two values that \<^verbatim>\<open>float\<close> accepts are equal exactly when their roundings to
  two decimals are equal. On every field a null and a value that is not null are unequal.
\<close>

theorem comparator_equality:
  "(cargo_weight_kg r \<noteq> Some NaN \<and> cargo_cbm r \<noteq> Some NaN \<longrightarrow>
      (\<exists>m. evaluate_accuracy repr [to_json r] [to_json r] = Inr (Some m)
         \<and> correct_fields m = 9 \<and> total_fields m = 9 \<and> overall_acc m = 100))
   \<and> (f \<in> set [''cargo_weight_kg'', ''cargo_cbm''] \<longrightarrow>
        compare_values repr f PNone PNone = Inr True
        \<and> (v1 \<noteq> PNone \<and> v2 \<noteq> PNone \<and> py_float v1 = Inr x \<and> py_float v2 = Inr y \<longrightarrow>
             compare_values repr f v1 v2 = Inr (float_eq (py_round2 x) (py_round2 y))))
   \<and> (v \<noteq> PNone \<longrightarrow>
        compare_values repr g PNone v = Inr False \<and> compare_values repr g v PNone = Inr False)"
  using evaluate_accuracy_same [of r repr] compare_floats_parsed [of v1 v2 x y]
    compare_values_None [of v repr g]
  by (auto simp: compare_values_def compare_floats_def)

theorem comparator_equality_witness:
  "cargo_weight_kg example_record \<noteq> Some NaN \<and> cargo_cbm example_record \<noteq> Some NaN
   \<and> (\<exists>m. evaluate_accuracy (\<lambda>v. []) [to_json example_record] [to_json example_record]
          = Inr (Some m)
        \<and> correct_fields m = 9 \<and> total_fields m = 9 \<and> overall_acc m = 100)
   \<and> ''cargo_weight_kg'' \<in> set [''cargo_weight_kg'', ''cargo_cbm'']
   \<and> py_float (PFloat (Fin (2199027653598511 / 4398046511104))) = Inr (Fin (2199027653598511 / 4398046511104))
   \<and> py_float (PFloat (Fin 500)) = Inr (Fin 500)
   \<and> float_eq (py_round2 (Fin (2199027653598511 / 4398046511104))) (py_round2 (Fin 500))
   \<and> compare_values (\<lambda>v. []) ''cargo_weight_kg'' (PFloat (Fin (2199027653598511 / 4398046511104))) (PFloat (Fin 500))
        = Inr True
   \<and> compare_values (\<lambda>v. []) ''origin_port_code'' (PStr ''INMAA'') PNone = Inr False"
proof -
  have h: "cargo_weight_kg example_record \<noteq> Some NaN" "cargo_cbm example_record \<noteq> Some NaN"
    by (simp_all add: example_record_def)
  have e: "float_eq (py_round2 (Fin (2199027653598511 / 4398046511104))) (py_round2 (Fin 500))"
    by code_simp
  note t = comparator_equality [of example_record "\<lambda>v. []" "''cargo_weight_kg''"
      "PFloat (Fin (2199027653598511 / 4398046511104))" "PFloat (Fin 500)" "Fin (2199027653598511 / 4398046511104)" "Fin 500"
      "PStr ''INMAA''" "''origin_port_code''"]
  from t h have a: "\<exists>m. evaluate_accuracy (\<lambda>v. []) [to_json example_record] [to_json example_record]
          = Inr (Some m)
        \<and> correct_fields m = 9 \<and> total_fields m = 9 \<and> overall_acc m = 100"
    by blast
  from t e have b: "compare_values (\<lambda>v. []) ''cargo_weight_kg'' (PFloat (Fin (2199027653598511 / 4398046511104)))
      (PFloat (Fin 500)) = Inr True"
    by simp
  from t have c: "compare_values (\<lambda>v. []) ''origin_port_code'' (PStr ''INMAA'') PNone = Inr False"
    by simp
  from h a e b c show ?thesis by simp
qed

text \<open>
  C10. The claim asks that a null and the text "null" normalize to one token and compare
  equal. \<open>normalize_string\<close> returns the lower-case \<^verbatim>\<open>null\<close> for a null and upper-cases
  every other value, so the text "null" becomes \<^verbatim>\<open>NULL\<close> and the two compare unequal.
\<close>

theorem normalize_string_null_mismatch:
  "normalize_string repr PNone = ''null''
   \<and> normalize_string repr (PStr ''null'') = ''NULL''
   \<and> compare_values repr ''origin_port_code'' PNone (PStr ''null'') = Inr False
   \<and> compare_values repr ''origin_port_code'' PNone (PStr ''NULL'') = Inr False"
proof -
  have u: "py_upper (py_strip ''null'') = ''NULL''" "py_upper (py_strip ''NULL'') = ''NULL''"
    by code_simp+
  show ?thesis
    by (simp add: normalize_string_def compare_values_def u)
qed


end
